theory Spec2Isabelle
  imports Complex_Main
begin

section \<open>Arrays and tensors\<close>

text \<open>
  The script works on two-dimensional numpy arrays and torch tensors. Both are modelled by
  one type: the two entries of \<open>.shape\<close> and the rows of the array. Entries are exact
  reals: rounding (float64 in numpy, float32 after \<open>.float()\<close>) is outside the model.
  The exceptions that the script and the library calls it makes can raise are values of
  the type \<open>error\<close>; a computation that can raise returns \<open>error + 'a\<close>.
\<close>

datatype error =
    SystemExit      \<comment> \<open>\<open>sys.exit()\<close> of the prescaling guard\<close>
  | ValueError      \<comment> \<open>numpy: reduction of a zero-size array\<close>
  | ShapeMismatch   \<comment> \<open>numpy ValueError / torch RuntimeError: operand shapes do not fit\<close>
  | TypeError       \<comment> \<open>\<open>load_state_dict(None)\<close>\<close>
  | NotANumber      \<comment> \<open>mean of an array without entries (nan in floating point)\<close>
  | LibraryError    \<comment> \<open>any other exception of a library call taken as a parameter\<close>

text \<open>A step that can raise, followed by the rest of the computation.\<close>

definition ebind :: "error + 'a \<Rightarrow> ('a \<Rightarrow> error + 'b) \<Rightarrow> error + 'b" where
  "ebind r f = (case r of Inl e \<Rightarrow> Inl e | Inr a \<Rightarrow> f a)"

datatype matrix = Matrix (shape0: nat) (shape1: nat) (rows: "real list list")

definition wf_matrix :: "matrix \<Rightarrow> bool" where
  "wf_matrix A \<longleftrightarrow> length (rows A) = shape0 A \<and> list_all (\<lambda>r. length r = shape1 A) (rows A)"

definition entry :: "matrix \<Rightarrow> nat \<Rightarrow> nat \<Rightarrow> real" where
  "entry A i j = rows A ! i ! j"

definition tabulate :: "nat \<Rightarrow> nat \<Rightarrow> (nat \<Rightarrow> nat \<Rightarrow> real) \<Rightarrow> matrix" where
  "tabulate r c f = Matrix r c (map (\<lambda>i. map (\<lambda>j. f i j) [0..<c]) [0..<r])"

text \<open>\<open>A.t()\<close> (torch) and \<open>A.T\<close> (numpy).\<close>

definition t :: "matrix \<Rightarrow> matrix" where
  "t A = tabulate (shape1 A) (shape0 A) (\<lambda>i j. entry A j i)"

text \<open>\<open>torch.matmul(A, B)\<close> and numpy's \<open>A @ B\<close> on two-dimensional operands.\<close>

definition matmul :: "matrix \<Rightarrow> matrix \<Rightarrow> error + matrix" where
  "matmul A B =
     (if shape1 A = shape0 B
      then Inr (tabulate (shape0 A) (shape1 B)
                  (\<lambda>i j. sum_list (map (\<lambda>k. entry A i k * entry B k j) [0..<shape1 A])))
      else Inl ShapeMismatch)"

text \<open>An operation applied to every entry: \<open>c * A\<close>, \<open>A + c\<close>, \<open>torch.sigmoid(A)\<close>, \<open>A ** 2\<close>.\<close>

definition map_matrix :: "(real \<Rightarrow> real) \<Rightarrow> matrix \<Rightarrow> matrix" where
  "map_matrix f A = Matrix (shape0 A) (shape1 A) (map (map f) (rows A))"

definition sigmoid :: "real \<Rightarrow> real" where
  "sigmoid v = 1 / (1 + exp (- v))"

section \<open>The 1-Sym layer\<close>

text \<open>
  \<open>OneSymAutoencoder\<close> has one parameter, \<open>W\<close> of shape \<open>[hidden_dim, input_dim]\<close>.
  \<open>forward\<close> follows the three statements of the method.
\<close>

definition forward :: "matrix \<Rightarrow> matrix \<Rightarrow> error + matrix" where
  "forward W x =
     (case matmul W (t x) of
        Inl e \<Rightarrow> Inl e
      | Inr z \<Rightarrow>
          (let hidden = map_matrix (\<lambda>v. v - 1)
                          (map_matrix (\<lambda>v. 2 * v)
                             (map_matrix sigmoid (map_matrix (\<lambda>v. 2 * v) z)))
           in case matmul (t W) hidden of
                Inl e \<Rightarrow> Inl e
              | Inr out \<Rightarrow> Inr (t out)))"

text \<open>The activation as the class's docstring writes it: \<open>act(z) = 2/(1+exp(-2z)) - 1\<close>.\<close>

definition act :: "real \<Rightarrow> real" where
  "act z = 2 / (1 + exp (- 2 * z)) - 1"

section \<open>The training function\<close>

text \<open>
  A loss (\<open>loss.item()\<close>) is a Python float: a real number, an infinity or nan.
  \<open>flt\<close> is \<open>a < b\<close> on floats: with a nan on either side it is \<open>False\<close>. \<open>best_loss\<close>
  starts at \<open>float('inf')\<close>; the two comparisons of the loop are
  \<open>cur_loss < best_loss\<close> and \<open>best_loss < tol\<close>.
\<close>

datatype pyfloat = Fin real | PosInf | NegInf | NaN

fun flt :: "pyfloat \<Rightarrow> pyfloat \<Rightarrow> bool" where
  "flt (Fin a) (Fin b) = (a < b)"
| "flt (Fin a) PosInf = True"
| "flt NegInf (Fin b) = True"
| "flt NegInf PosInf = True"
| "flt _ _ = False"

text \<open>
  Python's \<open>min\<close> of a list: the first item, replaced by every later item that is
  \<open><\<close> the current one; \<open>ValueError\<close> on the empty list.
\<close>

fun py_min :: "pyfloat list \<Rightarrow> error + pyfloat" where
  "py_min [] = Inl ValueError"
| "py_min (x # xs) = Inr (fold (\<lambda>item m. if flt item m then item else m) xs x)"

text \<open>
  Parameter tensors live in a store: an address names the storage of one tensor. A module
  is the list of its named parameters. \<open>model.state_dict()\<close> returns a dictionary
  whose values are the parameters detached, which share the parameters' storage, so the
  dictionary maps each name to the address of the live parameter. \<open>optimizer.step()\<close>
  updates every parameter in place: it writes the new values to the same addresses.
\<close>

type_synonym addr = nat

type_synonym state_dict = "(string \<times> addr) list"

record module =
  named_parameters :: "(string \<times> addr) list"

definition parameters :: "module \<Rightarrow> addr list" where
  "parameters m = map snd (named_parameters m)"

definition state_dict :: "module \<Rightarrow> state_dict" where
  "state_dict m = named_parameters m"

definition read_params :: "(addr \<Rightarrow> 'w) \<Rightarrow> addr list \<Rightarrow> 'w list" where
  "read_params h as = map h as"

fun write_params :: "(addr \<Rightarrow> 'w) \<Rightarrow> addr list \<Rightarrow> 'w list \<Rightarrow> (addr \<Rightarrow> 'w)" where
  "write_params h (a # as) (v # vs) = write_params (h(a := v)) as vs"
| "write_params h _ _ = h"

text \<open>The tensors a state dictionary holds, read from the store.\<close>

definition deref :: "(addr \<Rightarrow> 'w) \<Rightarrow> state_dict \<Rightarrow> (string \<times> 'w) list" where
  "deref h sd = map (\<lambda>(name, a). (name, h a)) sd"

text \<open>
  \<open>DataLoader(dataset, batch_size, shuffle=True)\<close> over the \<open>N\<close> rows of the data set:
  in every epoch it yields \<open>ceil(N / batch_size)\<close> mini-batches, the rows taken
  \<open>batch_size\<close> at a time (the last batch may be shorter) in the order of a random
  permutation. \<open>shuffle epoch p\<close> is the row at position \<open>p\<close> of the permutation of the
  epoch; the model leaves it open.
\<close>

definition num_batches :: "nat \<Rightarrow> nat \<Rightarrow> nat" where
  "num_batches N batch_size = (N + batch_size - 1) div batch_size"

definition data_loader :: "matrix \<Rightarrow> nat \<Rightarrow> (nat \<Rightarrow> nat \<Rightarrow> nat) \<Rightarrow> nat \<Rightarrow> matrix list" where
  "data_loader dataset batch_size shuffle epoch =
     map (\<lambda>k. let idx = map (shuffle epoch)
                           [k * batch_size..<min ((k + 1) * batch_size) (shape0 dataset)]
              in Matrix (length idx) (shape1 dataset) (map (\<lambda>i. rows dataset ! i) idx))
       [0..<num_batches (shape0 dataset) batch_size]"

text \<open>
  The library objects \<open>train_sffn\<close> works with are parameters of the model:
  \<^item> \<open>model_loss\<close>: \<open>model(x_batch)\<close>, \<open>mse_loss(out, x_batch)\<close> and
    \<open>loss.item()\<close>, from the current parameter values and the batch;
  \<^item> \<open>optimizer_init\<close>: the state of \<open>optim.Adam(model.parameters(), lr=lr)\<close>;
  \<^item> \<open>optimizer_step\<close>: \<open>loss.backward()\<close> and \<open>optimizer.step()\<close>: the new
    optimizer state and the new parameter values;
  \<^item> \<open>shuffle\<close>: the permutations of the loader.
\<close>

record ('w, 'o) library =
  model_loss :: "'w list \<Rightarrow> matrix \<Rightarrow> error + pyfloat"
  optimizer_init :: 'o
  optimizer_step :: "'o \<Rightarrow> 'w list \<Rightarrow> matrix \<Rightarrow> 'o \<times> 'w list"
  shuffle :: "nat \<Rightarrow> nat \<Rightarrow> nat"

record ('w, 'o) train_state =
  heap :: "addr \<Rightarrow> 'w"
  opt :: 'o
  best_loss :: pyfloat
  best_state :: "state_dict option"
  loss_values :: "pyfloat list"
  num_iter :: int

text \<open>The body of the inner loop up to the tracking of the best loss.\<close>

definition update ::
  "('w, 'o) library \<Rightarrow> module \<Rightarrow> matrix \<Rightarrow> ('w, 'o) train_state \<Rightarrow> error + ('w, 'o) train_state"
where
  "update L m x_batch s =
     (let n = num_iter s + 1;
          ws = read_params (heap s) (parameters m)
      in case model_loss L ws x_batch of
           Inl e \<Rightarrow> Inl e
         | Inr cur_loss \<Rightarrow>
             (let (opt', ws') = optimizer_step L (opt s) ws x_batch;
                  heap' = write_params (heap s) (parameters m) ws';
                  losses = loss_values s @ [cur_loss];
                  better = flt cur_loss (best_loss s)
              in Inr \<lparr>heap = heap', opt = opt',
                       best_loss = (if better then cur_loss else best_loss s),
                       best_state = (if better then Some (state_dict m) else best_state s),
                       loss_values = losses, num_iter = n\<rparr>))"

text \<open>\<open>best_loss < tol or num_iter >= max_iters\<close>, the condition of both \<open>break\<close>s.\<close>

definition stop :: "real \<Rightarrow> int \<Rightarrow> ('w, 'o) train_state \<Rightarrow> bool" where
  "stop tol max_iters s \<longleftrightarrow> flt (best_loss s) (Fin tol) \<or> num_iter s \<ge> max_iters"

text \<open>\<open>for batch in loader\<close>: one update per batch, left by \<open>break\<close>.\<close>

fun batch_loop ::
  "('w, 'o) library \<Rightarrow> module \<Rightarrow> real \<Rightarrow> int \<Rightarrow> matrix list \<Rightarrow> ('w, 'o) train_state
     \<Rightarrow> error + ('w, 'o) train_state"
where
  "batch_loop L m tol max_iters [] s = Inr s"
| "batch_loop L m tol max_iters (x_batch # rest) s =
     (case update L m x_batch s of
        Inl e \<Rightarrow> Inl e
      | Inr s' \<Rightarrow> if stop tol max_iters s' then Inr s'
                 else batch_loop L m tol max_iters rest s')"

text \<open>\<open>for epoch in range(10000)\<close>: the inner loop, then the same test and \<open>break\<close>.\<close>

fun epoch_loop ::
  "('w, 'o) library \<Rightarrow> module \<Rightarrow> real \<Rightarrow> int \<Rightarrow> (nat \<Rightarrow> matrix list) \<Rightarrow> nat list
     \<Rightarrow> ('w, 'o) train_state \<Rightarrow> error + ('w, 'o) train_state"
where
  "epoch_loop L m tol max_iters loader [] s = Inr s"
| "epoch_loop L m tol max_iters loader (epoch # rest) s =
     (case batch_loop L m tol max_iters (loader epoch) s of
        Inl e \<Rightarrow> Inl e
      | Inr s' \<Rightarrow> if stop tol max_iters s' then Inr s'
                 else epoch_loop L m tol max_iters loader rest s')"

text \<open>The state before the loops: \<open>best_loss = float('inf')\<close>, \<open>best_state = None\<close>,
  \<open>loss_values = []\<close>, \<open>num_iter = 0\<close>.\<close>

definition init_state :: "('w, 'o) library \<Rightarrow> (addr \<Rightarrow> 'w) \<Rightarrow> ('w, 'o) train_state" where
  "init_state L h =
     \<lparr>heap = h, opt = optimizer_init L, best_loss = PosInf, best_state = None,
      loss_values = [], num_iter = 0\<rparr>"

text \<open>
  \<open>train_sffn(model, Xrest, device, lr, max_iters, tol, batch_size, verbose)\<close>. The
  set-up raises \<open>ValueError\<close> when the loader is built on a data set without rows or
  with a batch size that is not positive, and when \<open>optim.Adam\<close> gets a model without
  parameters. The function returns \<open>best_state\<close>, \<open>best_loss\<close>, \<open>loss_values\<close> and
  \<open>num_iter\<close>; the final state has them as fields, beside the store that the training
  has changed. \<open>lr\<close> is part of the optimizer; \<open>device\<close> and \<open>verbose\<close> do not
  change the result.
\<close>

definition train_sffn ::
  "('w, 'o) library \<Rightarrow> module \<Rightarrow> (addr \<Rightarrow> 'w) \<Rightarrow> matrix \<Rightarrow> int \<Rightarrow> real \<Rightarrow> int
     \<Rightarrow> error + ('w, 'o) train_state"
where
  "train_sffn L model h Xrest max_iters tol batch_size =
     (if shape0 Xrest = 0 \<or> batch_size \<le> 0 then Inl ValueError
      else if parameters model = [] then Inl ValueError
      else epoch_loop L model tol max_iters
             (data_loader Xrest (nat batch_size) (shuffle L)) [0..<10000] (init_state L h))"

text \<open>
  The updates of a list of mini-batches, one after the other, with no test in between:
  what the training has done when it has performed that many updates.
\<close>

fun run_updates ::
  "('w, 'o) library \<Rightarrow> module \<Rightarrow> matrix list \<Rightarrow> ('w, 'o) train_state
     \<Rightarrow> error + ('w, 'o) train_state"
where
  "run_updates L m [] s = Inr s"
| "run_updates L m (x_batch # rest) s = ebind (update L m x_batch s) (run_updates L m rest)"

text \<open>All the mini-batches of the 10000 epochs, in the order in which the loops meet them.\<close>

definition all_batches :: "matrix \<Rightarrow> nat \<Rightarrow> (nat \<Rightarrow> nat \<Rightarrow> nat) \<Rightarrow> matrix list" where
  "all_batches Xrest batch_size sh = concat (map (data_loader Xrest batch_size sh) [0..<10000])"

section \<open>Prescaling\<close>

text \<open>Column \<open>j\<close> of an array, and the reductions along axis 0 that the script uses:
  \<open>A.min(axis=0)\<close>, \<open>A.max(axis=0)\<close> (numpy raises on an array without rows) and
  \<open>A.mean(axis=0)\<close>.\<close>

definition col :: "matrix \<Rightarrow> nat \<Rightarrow> real list" where
  "col A j = map (\<lambda>r. r ! j) (rows A)"

definition amin0 :: "matrix \<Rightarrow> error + real list" where
  "amin0 A =
     (if shape0 A = 0 then Inl ValueError
      else Inr (map (\<lambda>j. Min (set (col A j))) [0..<shape1 A]))"

definition amax0 :: "matrix \<Rightarrow> error + real list" where
  "amax0 A =
     (if shape0 A = 0 then Inl ValueError
      else Inr (map (\<lambda>j. Max (set (col A j))) [0..<shape1 A]))"

definition mean0 :: "matrix \<Rightarrow> error + real list" where
  "mean0 A =
     (if shape0 A = 0 then Inl NotANumber
      else Inr (map (\<lambda>j. sum_list (col A j) / real (shape0 A)) [0..<shape1 A]))"

text \<open>
  An arithmetic operation on a two-dimensional array and a one-dimensional one: numpy
  applies the one-dimensional operand along every row, and repeats an operand of length 1.
\<close>

definition broadcast_rows :: "(real \<Rightarrow> real \<Rightarrow> real) \<Rightarrow> matrix \<Rightarrow> real list \<Rightarrow> error + matrix" where
  "broadcast_rows f A v =
     (if shape1 A = length v
      then Inr (Matrix (shape0 A) (shape1 A) (map (\<lambda>r. map2 f r v) (rows A)))
      else if length v = 1 then Inr (map_matrix (\<lambda>a. f a (v ! 0)) A)
      else if shape1 A = 1
      then Inr (Matrix (shape0 A) (length v) (map (\<lambda>r. map (\<lambda>b. f (r ! 0) b) v) (rows A)))
      else Inl ShapeMismatch)"

text \<open>\<open>np.finfo(float).eps\<close>.\<close>

definition float_eps :: real where
  "float_eps = 1 / 2 ^ 52"

text \<open>
  Section 3 of the script: the guard with \<open>sys.exit()\<close>, then
  \<open>X = (Data - m) * cofs\<close> with \<open>cofs = 2.0 / (maxD - minD)\<close>.
\<close>

definition prescale :: "matrix \<Rightarrow> error + matrix" where
  "prescale Data =
     (case amin0 Data of
        Inl e \<Rightarrow> Inl e
      | Inr minD \<Rightarrow>
     (case amax0 Data of
        Inl e \<Rightarrow> Inl e
      | Inr maxD \<Rightarrow>
          if list_ex (\<lambda>d. \<bar>d\<bar> < sqrt float_eps) (map2 (-) maxD minD) then Inl SystemExit
          else
            (case mean0 Data of
               Inl e \<Rightarrow> Inl e
             | Inr m \<Rightarrow>
                 (let cofs = map (\<lambda>d. 2 / d) (map2 (-) maxD minD)
                  in case broadcast_rows (-) Data m of
                       Inl e \<Rightarrow> Inl e
                     | Inr centred \<Rightarrow> broadcast_rows (*) centred cofs))))"

text \<open>The range of a feature: the maximum of column \<open>j\<close> minus its minimum.\<close>

definition col_range :: "matrix \<Rightarrow> nat \<Rightarrow> real" where
  "col_range A j = Max (set (col A j)) - Min (set (col A j))"

section \<open>The sweep over the hidden sizes\<close>

text \<open>
  An arithmetic operation on two arrays follows the broadcasting rule of numpy and
  torch: along each axis the lengths are equal or one of them is 1, and the operand of
  length 1 is repeated.
\<close>

definition bdim :: "nat \<Rightarrow> nat \<Rightarrow> nat option" where
  "bdim a b = (if a = b then Some a else if a = 1 then Some b else if b = 1 then Some a else None)"

definition bidx :: "nat \<Rightarrow> nat \<Rightarrow> nat" where
  "bidx d i = (if d = 1 then 0 else i)"

definition broadcast :: "(real \<Rightarrow> real \<Rightarrow> real) \<Rightarrow> matrix \<Rightarrow> matrix \<Rightarrow> error + matrix" where
  "broadcast f A B =
     (case (bdim (shape0 A) (shape0 B), bdim (shape1 A) (shape1 B)) of
        (Some r, Some c) \<Rightarrow>
          Inr (tabulate r c
                 (\<lambda>i j. f (entry A (bidx (shape0 A) i) (bidx (shape1 A) j))
                          (entry B (bidx (shape0 B) i) (bidx (shape1 B) j))))
      | _ \<Rightarrow> Inl ShapeMismatch)"

text \<open>\<open>A.mean()\<close> over all entries; for an array without entries the libraries give nan.\<close>

definition mean_all :: "matrix \<Rightarrow> error + real" where
  "mean_all A =
     (if shape0 A * shape1 A = 0 then Inl NotANumber
      else Inr (sum_list (concat (rows A)) / real (shape0 A * shape1 A)))"

text \<open>
  \<open>((A - B) ** 2).mean()\<close>, which is also what \<open>nn.MSELoss()\<close> computes for an output
  and a target.
\<close>

definition mse :: "matrix \<Rightarrow> matrix \<Rightarrow> error + real" where
  "mse A B = ebind (broadcast (-) A B) (\<lambda>D. mean_all (map_matrix (\<lambda>v. v\<^sup>2) D))"

text \<open>\<open>A[:, :k]\<close>.\<close>

definition take_cols :: "nat \<Rightarrow> matrix \<Rightarrow> matrix" where
  "take_cols k A = Matrix (shape0 A) (min k (shape1 A)) (map (take k) (rows A))"

text \<open>
  What the libraries decide is a parameter of the script:
  \<^item> \<open>pca_fit_transform\<close>: \<open>Y = pca_model.fit_transform(X)\<close> and
    \<open>U = pca_model.components_.T\<close>;
  \<^item> \<open>torch_rand\<close>: the result of \<open>torch.rand(hidden_dim, input_dim)\<close>;
  \<^item> \<open>adam_init\<close> and \<open>adam_step\<close>: \<open>optim.Adam\<close> with \<open>lr = 1e-3\<close>, its step
    with the gradient of the loss at the batch;
  \<^item> \<open>shuffles\<close>: the permutations of the loader, for the training run of a hidden
    size.
\<close>

record 'o script_env =
  pca_fit_transform :: "matrix \<Rightarrow> error + matrix \<times> matrix"
  torch_rand :: "nat \<Rightarrow> nat \<Rightarrow> matrix"
  adam_init :: 'o
  adam_step :: "'o \<Rightarrow> matrix list \<Rightarrow> matrix \<Rightarrow> 'o \<times> matrix list"
  shuffles :: "nat \<Rightarrow> nat \<Rightarrow> nat \<Rightarrow> nat"

text \<open>
  \<open>OneSymAutoencoder(input_dim, hidden_dim)\<close>: the parameter \<open>W\<close> is stored at address 0
  with the value \<open>0.1 * (2.0 * torch.rand(hidden_dim, input_dim) - 1.0)\<close>.
\<close>

definition w_init :: "matrix \<Rightarrow> matrix" where
  "w_init R = map_matrix (\<lambda>v. 0.1 * v) (map_matrix (\<lambda>v. v - 1) (map_matrix (\<lambda>v. 2 * v) R))"

definition one_sym_model :: module where
  "one_sym_model = \<lparr>named_parameters = [(''W'', 0)]\<rparr>"

definition one_sym_heap :: "matrix \<Rightarrow> addr \<Rightarrow> matrix" where
  "one_sym_heap W = (\<lambda>a. Matrix 0 0 [])(0 := W)"

text \<open>
  The library objects of a call of \<open>train_sffn\<close> on a \<open>OneSymAutoencoder\<close>. The loss of
  a batch is \<open>mse_loss(model(x_batch), x_batch).item()\<close>, nan for a batch without entries.
\<close>

definition one_sym_library :: "'o script_env \<Rightarrow> nat \<Rightarrow> (matrix, 'o) library" where
  "one_sym_library env nred =
     \<lparr>model_loss =
        (\<lambda>ws x_batch. case ws of
           [W] \<Rightarrow> ebind (forward W x_batch) (\<lambda>out.
                   case mse out x_batch of
                     Inr loss \<Rightarrow> Inr (Fin loss)
                   | Inl NotANumber \<Rightarrow> Inr NaN
                   | Inl e \<Rightarrow> Inl e)
         | _ \<Rightarrow> Inl LibraryError),
      optimizer_init = adam_init env,
      optimizer_step = adam_step env,
      shuffle = shuffles env nred\<rparr>"

text \<open>
  \<open>model.load_state_dict(best_state)\<close>: \<open>None\<close> is refused; the keys have to be those of
  the module; each parameter is overwritten in place with the tensor the dictionary holds.
\<close>

definition load_state_dict ::
  "module \<Rightarrow> (addr \<Rightarrow> 'w) \<Rightarrow> state_dict option \<Rightarrow> error + (addr \<Rightarrow> 'w)"
where
  "load_state_dict m h best =
     (case best of
        None \<Rightarrow> Inl TypeError
      | Some sd \<Rightarrow>
          if map fst sd = map fst (named_parameters m)
          then Inr (write_params h (parameters m) (map (\<lambda>(name, a). h a) sd))
          else Inl LibraryError)"

text \<open>
  The values computed in one pass of the main loop, for the hidden size \<open>nred\<close>. The
  printed log (\<open>f0\<close> apart, whose computation can raise), the plots and the report of
  norms do not change them and are left out.
\<close>

record iter_result =
  PCArecon :: matrix
  Xrest :: matrix
  AEOut :: matrix
  final_mse :: real
  final_rmse :: real
  pca_rmse :: real

definition sweep_iter ::
  "'o script_env \<Rightarrow> matrix \<Rightarrow> matrix \<Rightarrow> matrix \<Rightarrow> nat \<Rightarrow> nat \<Rightarrow> error + iter_result"
where
  "sweep_iter env X Y U n0 nred =
     ebind (matmul (take_cols nred Y) (t (take_cols nred U))) (\<lambda>PCArecon.
     ebind (broadcast (-) X PCArecon) (\<lambda>Xrest.
     let h0 = one_sym_heap (w_init (torch_rand env nred n0)) in
     ebind (forward (h0 0) Xrest) (\<lambda>AEOut0.
     ebind (mse AEOut0 Xrest) (\<lambda>f0.
     ebind (train_sffn (one_sym_library env nred) one_sym_model h0 Xrest 5000 (1 / 10 ^ 9) 64)
       (\<lambda>s.
     ebind (load_state_dict one_sym_model (heap s) (best_state s)) (\<lambda>h1.
     ebind (forward (h1 0) Xrest) (\<lambda>AEOut.
     ebind (mse AEOut Xrest) (\<lambda>final_mse.
     ebind (mse X PCArecon) (\<lambda>pca_mse.
     Inr \<lparr>PCArecon = PCArecon, Xrest = Xrest, AEOut = AEOut, final_mse = final_mse,
          final_rmse = sqrt final_mse, pca_rmse = sqrt pca_mse\<rparr>)))))))))"

text \<open>
  The state of the main loop: the two lists of errors and the content of the save file
  (\<open>None\<close> before the first \<open>torch.save\<close>). A saved dictionary maps its keys to values.
\<close>

datatype pyval = PStr string | PInt int | PFloats "real list"

record sweep_state =
  PCAErr :: "real list"
  AEErrs :: "real list"
  save_file :: "(string \<rightharpoonup> pyval) option"

definition DataName :: string where
  "DataName = ''Wine''"

definition sweep_body ::
  "'o script_env \<Rightarrow> matrix \<Rightarrow> matrix \<Rightarrow> matrix \<Rightarrow> nat \<Rightarrow> nat \<Rightarrow> nat \<Rightarrow> sweep_state
     \<Rightarrow> error + sweep_state"
where
  "sweep_body env X Y U N n0 nred st =
     ebind (sweep_iter env X Y U n0 nred) (\<lambda>r.
       let AEErrs' = AEErrs st @ [final_rmse r];
           PCAErr' = PCAErr st @ [pca_rmse r];
           results_dict =
             [''DataName'' \<mapsto> PStr DataName, ''N'' \<mapsto> PInt (int N), ''n0'' \<mapsto> PInt (int n0),
              ''nred'' \<mapsto> PInt (int nred), ''PCAErr'' \<mapsto> PFloats PCAErr',
              ''AEErrs'' \<mapsto> PFloats AEErrs']
       in Inr \<lparr>PCAErr = PCAErr', AEErrs = AEErrs', save_file = Some results_dict\<rparr>)"

fun sweep ::
  "'o script_env \<Rightarrow> matrix \<Rightarrow> matrix \<Rightarrow> matrix \<Rightarrow> nat \<Rightarrow> nat \<Rightarrow> nat list \<Rightarrow> sweep_state
     \<Rightarrow> error + sweep_state"
where
  "sweep env X Y U N n0 [] st = Inr st"
| "sweep env X Y U N n0 (nred # rest) st =
     ebind (sweep_body env X Y U N n0 nred st) (sweep env X Y U N n0 rest)"

text \<open>
  \<open>HidDims = list(range(nredstart, nredfin + 1, nredstep))\<close> with
  \<open>nredfin = int(0.6 * n0) + 1\<close>; the product is taken in the reals.
\<close>

definition HidDims :: "nat \<Rightarrow> nat list" where
  "HidDims n0 =
     (let nredstart = 1; nredfin = nat \<lfloor>0.6 * real n0\<rfloor> + 1
      in [nredstart..<nredfin + 1])"

text \<open>The script from the loading of the data to the end of the main loop.\<close>

definition script :: "'o script_env \<Rightarrow> matrix \<Rightarrow> error + sweep_state" where
  "script env Data =
     (let N = shape0 Data; n0 = shape1 Data
      in ebind (prescale Data) (\<lambda>X.
         ebind (pca_fit_transform env X) (\<lambda>(Y, U).
         sweep env X Y U N n0 (HidDims n0)
           \<lparr>PCAErr = [], AEErrs = [], save_file = None\<rparr>)))"

section \<open>Reconstruction error\<close>

text \<open>
  The reconstruction error as the glossary has it: the root-mean-squared difference
  between the original and the reconstructed data, over all entries.
\<close>

definition rms_diff :: "matrix \<Rightarrow> matrix \<Rightarrow> real" where
  "rms_diff A B =
     sqrt (sum_list (map (\<lambda>i. sum_list (map (\<lambda>j. (entry A i j - entry B i j)\<^sup>2)
                                       [0..<shape1 A])) [0..<shape0 A])
           / real (shape0 A * shape1 A))"

text \<open>
  The reconstruction of the data by the additive autoencoder: the reconstruction from the
  first principal components plus the output of the layer on the residual.
\<close>

definition additive_reconstruction :: "matrix \<Rightarrow> matrix \<Rightarrow> matrix" where
  "additive_reconstruction P A =
     tabulate (shape0 P) (shape1 P) (\<lambda>i j. entry P i j + entry A i j)"

section \<open>Invariants and example inputs\<close>

text \<open>
  What the loop keeps true of its counters: one recorded loss per update, and
  \<open>best_loss\<close> what Python's \<open>min\<close> gives on \<open>float('inf')\<close> followed by the losses
  recorded so far.
\<close>

definition tracked :: "('w, 'o) train_state \<Rightarrow> bool" where
  "tracked s \<longleftrightarrow>
     int (length (loss_values s)) = num_iter s \<and>
     py_min (PosInf # loss_values s) = Inr (best_loss s)"

text \<open>
  Inputs for the examples. A model with one scalar parameter \<open>W\<close> at address 0; a data
  set with one row; library objects whose loss is the same at every batch, with an
  optimizer that leaves the parameter as it is and a loader that keeps the order of the
  rows.
\<close>

definition scalar_model :: module where
  "scalar_model = \<lparr>named_parameters = [(''W'', 0)]\<rparr>"

definition one_row :: matrix where
  "one_row = Matrix 1 1 [[0]]"

definition steady_library :: "pyfloat \<Rightarrow> (real, unit) library" where
  "steady_library c =
     \<lparr>model_loss = (\<lambda>ws x_batch. Inr c), optimizer_init = (),
      optimizer_step = (\<lambda>opt ws x_batch. (opt, ws)), shuffle = (\<lambda>epoch p. p)\<rparr>"

text \<open>
  Library objects for the scalar model on a data set with one column: the loss is the
  squared distance of \<open>W\<close> to the first value of the batch, and the optimizer moves \<open>W\<close>
  half-way to that value. The data set has the two rows 1 and 3.
\<close>

definition scalar_library :: "(real, unit) library" where
  "scalar_library =
     \<lparr>model_loss =
        (\<lambda>ws x_batch. case ws of
           [w] \<Rightarrow> Inr (Fin ((w - entry x_batch 0 0)\<^sup>2))
         | _ \<Rightarrow> Inl LibraryError),
      optimizer_init = (),
      optimizer_step = (\<lambda>opt ws x_batch. (opt, map (\<lambda>w. (w + entry x_batch 0 0) / 2) ws)),
      shuffle = (\<lambda>epoch p. p)\<rparr>"

definition two_rows :: matrix where
  "two_rows = Matrix 2 1 [[1], [3]]"

text \<open>
  Inputs for the examples of the sweep: the prescaled data \<open>toy_X\<close>, a decomposition
  \<open>toy_Y\<close>, \<open>toy_U\<close> whose first component reproduces half of the data (\<open>toy_half\<close>)
  and whose two components reproduce it all, random numbers that are all 3/4 (so that every
  initial weight is 1/20: \<open>toy_W1\<close> for one hidden unit, \<open>toy_W2\<close> for two), an
  optimizer that leaves the weights as they are, and a loader that keeps the order of the
  rows. With the weight \<open>toy_W1\<close> the layer maps the row \<open>(1/2, 1/2)\<close> to
  \<open>(toy_c, toy_c)\<close> and the residual \<open>toy_half\<close> to \<open>toy_out\<close>.
\<close>

definition toy_X :: matrix where
  "toy_X = Matrix 2 2 [[- 1, - 1], [1, 1]]"

definition toy_Y :: matrix where
  "toy_Y = Matrix 2 2 [[- (1 / 2), - (1 / 2)], [1 / 2, 1 / 2]]"

definition toy_U :: matrix where
  "toy_U = Matrix 2 2 [[1, 1], [1, 1]]"

definition toy_half :: matrix where
  "toy_half = Matrix 2 2 [[- (1 / 2), - (1 / 2)], [1 / 2, 1 / 2]]"

definition toy_zero :: matrix where
  "toy_zero = Matrix 2 2 [[0, 0], [0, 0]]"

definition toy_W1 :: matrix where
  "toy_W1 = Matrix 1 2 [[1 / 20, 1 / 20]]"

definition toy_W2 :: matrix where
  "toy_W2 = Matrix 2 2 [[1 / 20, 1 / 20], [1 / 20, 1 / 20]]"

definition toy_c :: real where
  "toy_c = (2 * sigmoid (1 / 10) - 1) / 20"

definition toy_out :: matrix where
  "toy_out = Matrix 2 2 [[- toy_c, - toy_c], [toy_c, toy_c]]"

definition toy_env :: "unit script_env" where
  "toy_env =
     \<lparr>pca_fit_transform = (\<lambda>X. Inr (toy_Y, toy_U)),
      torch_rand = (\<lambda>hidden_dim input_dim. tabulate hidden_dim input_dim (\<lambda>i j. 3 / 4)),
      adam_init = (),
      adam_step = (\<lambda>opt ws x_batch. (opt, ws)),
      shuffles = (\<lambda>nred epoch p. p)\<rparr>"

section \<open>Facts about arrays\<close>

lemma shape_tabulate [simp]:
  "shape0 (tabulate r c f) = r" "shape1 (tabulate r c f) = c"
  by (simp_all add: tabulate_def)

lemma entry_tabulate [simp]: "i < r \<Longrightarrow> j < c \<Longrightarrow> entry (tabulate r c f) i j = f i j"
  by (simp add: entry_def tabulate_def)

lemma tabulate_cong:
  assumes "\<And>i j. i < r \<Longrightarrow> j < c \<Longrightarrow> f i j = g i j"
  shows "tabulate r c f = tabulate r c g"
  using assms by (simp add: tabulate_def)

lemma map_matrix_tabulate:
  "map_matrix f (tabulate r c g) = tabulate r c (\<lambda>i j. f (g i j))"
  by (simp add: map_matrix_def tabulate_def comp_def)

lemma sum_list_upt_cong:
  assumes "\<And>k. k < n \<Longrightarrow> f k = g k"
  shows "sum_list (map f [0..<n]) = sum_list (map g [0..<n])"
  by (rule arg_cong [where f = sum_list]) (simp add: assms)

section \<open>The activation is the hyperbolic tangent\<close>

lemma act_sigmoid: "2 * sigmoid (2 * z) - 1 = act z"
  by (simp add: sigmoid_def act_def)

text \<open>
  C10. For every real \<open>z\<close> the hidden activation \<open>2 * sigmoid (2 * z) - 1\<close> of
  \<open>forward\<close> equals \<open>2 / (1 + exp (- 2 * z)) - 1\<close> and equals \<open>tanh z\<close>.
\<close>

theorem activation_is_tanh:
  "2 * sigmoid (2 * z) - 1 = 2 / (1 + exp (- 2 * z)) - 1 \<and>
   2 * sigmoid (2 * z) - 1 = tanh z \<and>
   act z = tanh z"
proof -
  have pos: "1 + exp (- (2 * z)) \<noteq> 0"
    using exp_gt_zero [of "- (2 * z)"] by linarith
  have "tanh z = (1 - exp (- (2 * z))) / (1 + exp (- (2 * z)))"
    by (simp add: tanh_real_altdef)
  also have "\<dots> = 2 / (1 + exp (- (2 * z))) - 1"
    using pos by (simp add: field_simps)
  finally have "tanh z = act z" by (simp add: act_def)
  then show ?thesis by (simp add: sigmoid_def act_def)
qed

section \<open>The forward pass\<close>

lemma shape_t [simp]: "shape0 (t A) = shape1 A" "shape1 (t A) = shape0 A"
  by (simp_all add: t_def)

lemma entry_t [simp]: "i < shape1 A \<Longrightarrow> j < shape0 A \<Longrightarrow> entry (t A) i j = entry A j i"
  by (simp add: t_def)

lemma t_tabulate: "t (tabulate r c f) = tabulate c r (\<lambda>i j. f j i)"
  unfolding t_def shape_tabulate by (rule tabulate_cong) simp

lemma forward_entries:
  assumes "shape1 W = shape1 x"
  shows "forward W x = Inr (tabulate (shape0 x) (shape1 W)
           (\<lambda>i j. sum_list (map (\<lambda>k. entry W k j *
               act (sum_list (map (\<lambda>l. entry W k l * entry x i l) [0..<shape1 W])))
             [0..<shape0 W])))"
proof -
  let ?z = "tabulate (shape0 W) (shape0 x)
              (\<lambda>k i. sum_list (map (\<lambda>l. entry W k l * entry (t x) l i) [0..<shape1 W]))"
  have z: "matmul W (t x) = Inr ?z"
    using assms by (simp add: matmul_def)
  let ?h = "tabulate (shape0 W) (shape0 x)
              (\<lambda>k i. act (sum_list (map (\<lambda>l. entry W k l * entry x i l) [0..<shape1 W])))"
  have inner: "sum_list (map (\<lambda>l. entry W k l * entry (t x) l i) [0..<shape1 W]) =
               sum_list (map (\<lambda>l. entry W k l * entry x i l) [0..<shape1 W])"
    if "i < shape0 x" for k i
    by (rule sum_list_upt_cong) (simp add: assms that)
  have h: "map_matrix (\<lambda>v. v - 1) (map_matrix (\<lambda>v. 2 * v)
             (map_matrix sigmoid (map_matrix (\<lambda>v. 2 * v) ?z))) = ?h"
    unfolding map_matrix_tabulate
    by (rule tabulate_cong) (simp add: act_sigmoid inner)
  let ?out = "tabulate (shape1 W) (shape0 x)
              (\<lambda>j i. sum_list (map (\<lambda>k. entry (t W) j k * entry ?h k i) [0..<shape0 W]))"
  have out: "matmul (t W) ?h = Inr ?out"
    by (simp add: matmul_def)
  have outer: "sum_list (map (\<lambda>k. entry (t W) j k * entry ?h k i) [0..<shape0 W]) =
       sum_list (map (\<lambda>k. entry W k j *
               act (sum_list (map (\<lambda>l. entry W k l * entry x i l) [0..<shape1 W])))
             [0..<shape0 W])"
    if "i < shape0 x" "j < shape1 W" for i j
    by (rule sum_list_upt_cong) (simp add: that)
  have "t ?out = tabulate (shape0 x) (shape1 W)
           (\<lambda>i j. sum_list (map (\<lambda>k. entry W k j *
               act (sum_list (map (\<lambda>l. entry W k l * entry x i l) [0..<shape1 W])))
             [0..<shape0 W]))"
    unfolding t_tabulate
    by (rule tabulate_cong) (rule outer)
  then show ?thesis
    by (simp add: forward_def z h out Let_def)
qed

text \<open>
  C1. For every weight matrix \<open>W\<close> of shape \<open>[hidden_dim, input_dim]\<close> and every
  batch \<open>x\<close> of shape \<open>[batch_size, input_dim]\<close>, \<open>forward\<close> returns the transpose of
  \<open>W\<^sup>T \<cdot> (2 \<cdot> sigmoid (2 \<cdot> (W \<cdot> x\<^sup>T)) - 1)\<close>: the decoder weight is the transpose of the
  encoder weight and there is no bias. Entry \<open>(i, j)\<close> of the result is
  \<open>\<Sum>k. W[k][j] \<cdot> (2 \<cdot> sigmoid (2 \<cdot> \<Sum>l. W[k][l] \<cdot> x[i][l]) - 1)\<close>.
\<close>

theorem forward_weight_tied:
  assumes "wf_matrix W" and "wf_matrix x" and "shape1 W = shape1 x"
  shows "\<exists>z out. matmul W (t x) = Inr z \<and>
           matmul (t W) (map_matrix (\<lambda>v. 2 * sigmoid (2 * v) - 1) z) = Inr out \<and>
           forward W x = Inr (t out) \<and>
           t out = tabulate (shape0 x) (shape1 W)
             (\<lambda>i j. sum_list (map (\<lambda>k. entry W k j *
                (2 * sigmoid (2 * sum_list (map (\<lambda>l. entry W k l * entry x i l)
                                            [0..<shape1 W])) - 1))
              [0..<shape0 W]))"
proof -
  obtain z where z: "matmul W (t x) = Inr z" and sz: "shape0 z = shape0 W"
    using assms(3) by (simp add: matmul_def)
  let ?h = "map_matrix (\<lambda>v. 2 * sigmoid (2 * v) - 1) z"
  have h: "map_matrix (\<lambda>v. v - 1) (map_matrix (\<lambda>v. 2 * v)
             (map_matrix sigmoid (map_matrix (\<lambda>v. 2 * v) z))) = ?h"
    by (simp add: map_matrix_def comp_def)
  obtain out where out: "matmul (t W) ?h = Inr out"
    using sz by (simp add: matmul_def map_matrix_def)
  have fw: "forward W x = Inr (t out)"
    by (simp add: forward_def z h out Let_def)
  have "t out = tabulate (shape0 x) (shape1 W)
             (\<lambda>i j. sum_list (map (\<lambda>k. entry W k j *
                (2 * sigmoid (2 * sum_list (map (\<lambda>l. entry W k l * entry x i l)
                                            [0..<shape1 W])) - 1))
              [0..<shape0 W]))"
    using fw forward_entries [OF assms(3)] by (simp add: act_sigmoid)
  with z out fw show ?thesis by blast
qed

text \<open>A weight of shape \<open>[1, 2]\<close> and a batch of one row.\<close>

theorem forward_weight_tied_witness:
  "wf_matrix (Matrix 1 2 [[1, 2]]) \<and> wf_matrix (Matrix 1 2 [[1, - 1]]) \<and>
   shape1 (Matrix 1 2 [[1, 2]]) = shape1 (Matrix 1 2 [[1, - 1]]) \<and>
   forward (Matrix 1 2 [[1, 2]]) (Matrix 1 2 [[1, - 1]]) =
     Inr (Matrix 1 2 [[2 * sigmoid (- 2) - 1, 2 * (2 * sigmoid (- 2) - 1)]])"
  using forward_weight_tied [of "Matrix 1 2 [[1, 2]]" "Matrix 1 2 [[1, - 1]]"]
  by (auto simp: wf_matrix_def tabulate_def entry_def upt_rec)

section \<open>Facts about the training loop\<close>

lemma ebind_simps [simp]: "ebind (Inl e) f = Inl e" "ebind (Inr a) f = f a"
  by (simp_all add: ebind_def)

lemma ebind_InrE:
  assumes "ebind r f = Inr b"
  obtains a where "r = Inr a" and "f a = Inr b"
  using assms by (cases r) simp_all

lemma update_cases:
  assumes "update L m b s = Inr s'"
  obtains c where "model_loss L (read_params (heap s) (parameters m)) b = Inr c"
    and "num_iter s' = num_iter s + 1"
    and "loss_values s' = loss_values s @ [c]"
    and "best_loss s' = (if flt c (best_loss s) then c else best_loss s)"
    and "best_state s' = (if flt c (best_loss s) then Some (state_dict m) else best_state s)"
  using assms
  by (auto simp: update_def Let_def split: sum.splits prod.splits)

lemma update_raises:
  assumes "update L m b s = Inl e"
  shows "\<exists>ws x_batch. model_loss L ws x_batch = Inl e"
  using assms by (auto simp: update_def Let_def split: sum.splits prod.splits)

subsection \<open>The best loss\<close>

lemma py_min_snoc:
  assumes "py_min (x # xs) = Inr m"
  shows "py_min (x # xs @ [c]) = Inr (if flt c m then c else m)"
  using assms by auto

lemma tracked_update:
  assumes "update L m b s = Inr s'" and "tracked s"
  shows "tracked s'"
proof -
  from assms(1) obtain c where
    n: "num_iter s' = num_iter s + 1" and
    l: "loss_values s' = loss_values s @ [c]" and
    b: "best_loss s' = (if flt c (best_loss s) then c else best_loss s)"
    by (rule update_cases)
  from assms(2) have "py_min (PosInf # loss_values s) = Inr (best_loss s)"
    by (simp add: tracked_def)
  then have "py_min (PosInf # loss_values s @ [c]) = Inr (best_loss s')"
    unfolding b by (rule py_min_snoc)
  with assms(2) n l show ?thesis
    by (simp add: tracked_def)
qed

lemma tracked_batch_loop:
  "batch_loop L m tol mx bs s = Inr s' \<Longrightarrow> tracked s \<Longrightarrow> tracked s'"
proof (induction bs arbitrary: s)
  case Nil
  then show ?case by simp
next
  case (Cons b bs)
  then show ?case
    by (auto split: sum.splits if_splits dest: tracked_update)
qed

lemma tracked_epoch_loop:
  "epoch_loop L m tol mx ld es s = Inr s' \<Longrightarrow> tracked s \<Longrightarrow> tracked s'"
proof (induction es arbitrary: s)
  case Nil
  then show ?case by simp
next
  case (Cons e es)
  then show ?case
    by (auto split: sum.splits if_splits dest: tracked_batch_loop)
qed

lemma tracked_init: "tracked (init_state L h)"
  by (simp add: tracked_def init_state_def)

lemma py_min_first:
  assumes "x \<noteq> NaN"
  shows "py_min (PosInf # x # xs) = py_min (x # xs)"
  using assms by (cases x) simp_all

lemma fold_min_Fin:
  "fold (\<lambda>item m. if flt item m then item else m) (map Fin rs) (Fin r) = Fin (fold min rs r)"
proof (induction rs arbitrary: r)
  case Nil
  show ?case by simp
next
  case (Cons a rs)
  have "(if a < r then a else r) = min a r" by (simp add: min_def)
  with Cons show ?case by simp
qed

lemma py_min_Fin:
  assumes "rs \<noteq> []"
  shows "py_min (map Fin rs) = Inr (Fin (Min (set rs)))"
proof -
  from assms obtain r rs' where rs: "rs = r # rs'" by (cases rs) auto
  show ?thesis
    unfolding rs by (simp add: fold_min_Fin Min.set_eq_fold del: set_simps)
qed

subsection \<open>The counter\<close>

lemma num_iter_batch_loop:
  assumes "batch_loop L m tol mx bs s = Inr s'"
  shows "num_iter s \<le> num_iter s' \<and>
         num_iter s' \<le> num_iter s + int (length bs) \<and>
         num_iter s' \<le> max mx (num_iter s + 1) \<and>
         (\<not> stop tol mx s' \<longrightarrow> num_iter s' = num_iter s + int (length bs))"
  using assms
proof (induction bs arbitrary: s)
  case Nil
  then show ?case by simp
next
  case (Cons b bs)
  from Cons.prems obtain s1 where u: "update L m b s = Inr s1"
    by (auto split: sum.splits)
  then have n1: "num_iter s1 = num_iter s + 1" by (rule update_cases)
  show ?case
  proof (cases "stop tol mx s1")
    case True
    with Cons.prems u have "s' = s1" by simp
    with n1 True show ?thesis by simp
  next
    case False
    with Cons.prems u have "batch_loop L m tol mx bs s1 = Inr s'" by simp
    from Cons.IH [OF this] n1 False show ?thesis
      by (auto simp: stop_def)
  qed
qed

lemma num_iter_epoch_loop:
  assumes "epoch_loop L m tol mx ld es s = Inr s'"
  shows "num_iter s \<le> num_iter s' \<and>
         num_iter s' \<le> num_iter s + int (length (concat (map ld es))) \<and>
         num_iter s' \<le> max mx (num_iter s + 1) \<and>
         (\<not> stop tol mx s' \<longrightarrow> num_iter s' = num_iter s + int (length (concat (map ld es))))"
  using assms
proof (induction es arbitrary: s)
  case Nil
  then show ?case by simp
next
  case (Cons e es)
  from Cons.prems obtain s1 where b: "batch_loop L m tol mx (ld e) s = Inr s1"
    by (auto split: sum.splits)
  note n1 = num_iter_batch_loop [OF b]
  show ?case
  proof (cases "stop tol mx s1")
    case True
    with Cons.prems b have "s' = s1" by simp
    with n1 True show ?thesis by simp
  next
    case False
    with Cons.prems b have "epoch_loop L m tol mx ld es s1 = Inr s'" by simp
    from Cons.IH [OF this] n1 False show ?thesis
      by (auto simp: stop_def)
  qed
qed

lemma length_data_loader:
  "length (data_loader X bs sh e) = num_batches (shape0 X) bs"
  by (simp add: data_loader_def)

lemma length_concat_const:
  assumes "\<And>e. length (ld e) = k"
  shows "length (concat (map ld es)) = length es * k"
  by (induction es) (simp_all add: assms)

lemma length_all_batches:
  "length (all_batches X bs sh) = 10000 * num_batches (shape0 X) bs"
  unfolding all_batches_def
  by (simp add: length_concat_const [of _ "num_batches (shape0 X) bs"] length_data_loader)

lemma num_batches_pos: "0 < N \<Longrightarrow> 0 < bs \<Longrightarrow> 0 < num_batches N bs"
  by (simp add: num_batches_def div_greater_zero_iff)

subsection \<open>The updates performed\<close>

lemma run_updates_append:
  "run_updates L m (as @ bs) s = ebind (run_updates L m as s) (run_updates L m bs)"
proof (induction as arbitrary: s)
  case Nil
  show ?case by simp
next
  case (Cons a as)
  show ?case
    by (cases "update L m a s") (simp_all add: Cons.IH)
qed

lemma batch_loop_updates:
  assumes "batch_loop L m tol mx bs s = Inr s'"
  shows "run_updates L m (take (nat (num_iter s' - num_iter s)) bs) s = Inr s'"
  using assms
proof (induction bs arbitrary: s)
  case Nil
  then show ?case by simp
next
  case (Cons b bs)
  from Cons.prems obtain s1 where u: "update L m b s = Inr s1"
    by (auto split: sum.splits)
  then have n1: "num_iter s1 = num_iter s + 1" by (rule update_cases)
  show ?case
  proof (cases "stop tol mx s1")
    case True
    with Cons.prems u have "s' = s1" by simp
    with n1 u show ?thesis by simp
  next
    case False
    with Cons.prems u have rest: "batch_loop L m tol mx bs s1 = Inr s'" by simp
    from num_iter_batch_loop [OF rest] have "num_iter s1 \<le> num_iter s'" by simp
    with n1 have "nat (num_iter s' - num_iter s) = Suc (nat (num_iter s' - num_iter s1))"
      by arith
    with Cons.IH [OF rest] u show ?thesis by simp
  qed
qed

lemma epoch_loop_updates:
  assumes "epoch_loop L m tol mx ld es s = Inr s'"
  shows "run_updates L m (take (nat (num_iter s' - num_iter s)) (concat (map ld es))) s = Inr s'"
  using assms
proof (induction es arbitrary: s)
  case Nil
  then show ?case by simp
next
  case (Cons e es)
  from Cons.prems obtain s1 where b: "batch_loop L m tol mx (ld e) s = Inr s1"
    by (auto split: sum.splits)
  note n1 = num_iter_batch_loop [OF b]
  note r1 = batch_loop_updates [OF b]
  show ?case
  proof (cases "stop tol mx s1")
    case True
    with Cons.prems b have "s' = s1" by simp
    moreover from n1 have "nat (num_iter s1 - num_iter s) \<le> length (ld e)" by arith
    ultimately show ?thesis using r1 by simp
  next
    case False
    with Cons.prems b have rest: "epoch_loop L m tol mx ld es s1 = Inr s'" by simp
    from False n1 have full: "num_iter s1 = num_iter s + int (length (ld e))" by simp
    with r1 have r1': "run_updates L m (ld e) s = Inr s1" by simp
    from num_iter_epoch_loop [OF rest] have "num_iter s1 \<le> num_iter s'" by simp
    with full
    have k: "nat (num_iter s' - num_iter s) = length (ld e) + nat (num_iter s' - num_iter s1)"
      by arith
    show ?thesis
      unfolding k using Cons.IH [OF rest] r1'
      by (simp add: run_updates_append)
  qed
qed

subsection \<open>Exceptions\<close>

lemma batch_loop_raises:
  "batch_loop L m tol mx bs s = Inl e \<Longrightarrow> \<exists>ws x_batch. model_loss L ws x_batch = Inl e"
proof (induction bs arbitrary: s)
  case Nil
  then show ?case by simp
next
  case (Cons b bs)
  show ?case
  proof (cases "update L m b s")
    case (Inl e')
    with Cons.prems have "update L m b s = Inl e" by simp
    then show ?thesis by (rule update_raises)
  next
    case (Inr s1)
    with Cons.prems have "batch_loop L m tol mx bs s1 = Inl e"
      by (simp split: if_splits)
    then show ?thesis by (rule Cons.IH)
  qed
qed

lemma epoch_loop_raises:
  "epoch_loop L m tol mx ld es s = Inl e \<Longrightarrow> \<exists>ws x_batch. model_loss L ws x_batch = Inl e"
proof (induction es arbitrary: s)
  case Nil
  then show ?case by simp
next
  case (Cons ep es)
  show ?case
  proof (cases "batch_loop L m tol mx (ld ep) s")
    case (Inl e')
    with Cons.prems have "batch_loop L m tol mx (ld ep) s = Inl e" by simp
    then show ?thesis by (rule batch_loop_raises)
  next
    case (Inr s1)
    with Cons.prems have "epoch_loop L m tol mx ld es s1 = Inl e"
      by (simp split: if_splits)
    then show ?thesis by (rule Cons.IH)
  qed
qed

lemma train_sffn_returns:
  assumes "train_sffn L model h dataset max_iters tol batch_size = Inr s"
  shows "0 < shape0 dataset" and "0 < batch_size" and "parameters model \<noteq> []"
    and "epoch_loop L model tol max_iters (data_loader dataset (nat batch_size) (shuffle L))
           [0..<10000] (init_state L h) = Inr s"
  using assms by (auto simp: train_sffn_def split: if_splits)

subsection \<open>Bounds\<close>

lemma train_sffn_counts:
  assumes "train_sffn L model h dataset max_iters tol batch_size = Inr s"
  shows "run_updates L model
           (take (nat (num_iter s)) (all_batches dataset (nat batch_size) (shuffle L)))
           (init_state L h) = Inr s"
    and "int (length (loss_values s)) = num_iter s"
    and "0 \<le> num_iter s"
    and "num_iter s \<le> max max_iters 1"
    and "num_iter s \<le> 10000 * int (num_batches (shape0 dataset) (nat batch_size))"
    and "\<not> stop tol max_iters s \<longrightarrow>
           num_iter s = 10000 * int (num_batches (shape0 dataset) (nat batch_size))"
proof -
  let ?ld = "data_loader dataset (nat batch_size) (shuffle L)"
  note loop = train_sffn_returns(4) [OF assms]
  have n0: "num_iter (init_state L h) = 0" by (simp add: init_state_def)
  have len: "int (length (concat (map ?ld [0..<10000]))) =
             10000 * int (num_batches (shape0 dataset) (nat batch_size))"
    using length_all_batches [of dataset "nat batch_size" "shuffle L"]
    by (simp add: all_batches_def)
  from epoch_loop_updates [OF loop]
  show "run_updates L model
           (take (nat (num_iter s)) (all_batches dataset (nat batch_size) (shuffle L)))
           (init_state L h) = Inr s"
    by (simp add: n0 all_batches_def)
  from tracked_epoch_loop [OF loop tracked_init]
  show "int (length (loss_values s)) = num_iter s"
    by (simp add: tracked_def)
  from num_iter_epoch_loop [OF loop]
  show "0 \<le> num_iter s" and "num_iter s \<le> max max_iters 1"
    and "num_iter s \<le> 10000 * int (num_batches (shape0 dataset) (nat batch_size))"
    and "\<not> stop tol max_iters s \<longrightarrow>
           num_iter s = 10000 * int (num_batches (shape0 dataset) (nat batch_size))"
    unfolding n0 len by simp_all
qed

lemma train_sffn_raises:
  assumes "train_sffn L model h dataset max_iters tol batch_size = Inl e"
  shows "shape0 dataset = 0 \<or> batch_size \<le> 0 \<or> parameters model = [] \<or>
         (\<exists>ws x_batch. model_loss L ws x_batch = Inl e)"
  using assms epoch_loop_raises [of L model tol max_iters _ _ _ e]
  by (auto simp: train_sffn_def split: if_splits)

text \<open>
  C2, as the code has it. Every call of \<open>train_sffn\<close> ends. Either it returns, and then
  it has performed the updates of the first \<open>num_iter\<close> mini-batches of the loader and
  no other, one recorded loss each; \<open>num_iter\<close> is at most \<open>max_iters\<close> when
  \<open>max_iters\<close> is at least 1 (as with the 5000 of the call site) and at most 1
  otherwise, since the cap is tested only after an update; and it is at most the number
  of mini-batches of the 10000 epochs of the outer loop. Or it raises: in the set-up, on
  a data set without rows, a batch size that is not positive or a model without
  parameters, or else with the exception of a call of the model.
\<close>

theorem train_sffn_bounded:
  "(\<exists>s. train_sffn L model h dataset max_iters tol batch_size = Inr s \<and>
        run_updates L model
          (take (nat (num_iter s)) (all_batches dataset (nat batch_size) (shuffle L)))
          (init_state L h) = Inr s \<and>
        int (length (loss_values s)) = num_iter s \<and>
        0 \<le> num_iter s \<and>
        num_iter s \<le> max max_iters 1 \<and>
        num_iter s \<le> 10000 * int (num_batches (shape0 dataset) (nat batch_size))) \<or>
   (\<exists>e. train_sffn L model h dataset max_iters tol batch_size = Inl e \<and>
        (shape0 dataset = 0 \<or> batch_size \<le> 0 \<or> parameters model = [] \<or>
         (\<exists>ws x_batch. model_loss L ws x_batch = Inl e)))"
proof (cases "train_sffn L model h dataset max_iters tol batch_size")
  case (Inl e)
  with train_sffn_raises [OF Inl] show ?thesis by simp
next
  case (Inr s)
  with train_sffn_counts(1-5) [OF Inr] show ?thesis by simp
qed

subsection \<open>Runs with the same loss at every batch\<close>

lemma epochs_unfold: "[0..<10000] = 0 # [Suc 0..<10000]"
  by (rule upt_conv_Cons) simp

lemma steady_epochs:
  assumes step: "\<And>s. Q s \<Longrightarrow>
            update L m b s =
              Inr (s\<lparr>loss_values := loss_values s @ [c], num_iter := num_iter s + 1\<rparr>)"
    and keep: "\<And>s l n. Q s \<Longrightarrow> Q (s\<lparr>loss_values := l, num_iter := n\<rparr>)"
    and best: "\<And>s. Q s \<Longrightarrow> \<not> flt (best_loss s) (Fin tol)"
    and ld: "\<And>e. ld e = [b]"
  shows "Q s \<Longrightarrow> num_iter s < mx \<Longrightarrow>
         epoch_loop L m tol mx ld es s =
           Inr (s\<lparr>loss_values :=
                    loss_values s @ replicate (min (length es) (nat (mx - num_iter s))) c,
                  num_iter := num_iter s + int (min (length es) (nat (mx - num_iter s)))\<rparr>)"
proof (induction es arbitrary: s)
  case Nil
  show ?case by simp
next
  case (Cons e es)
  let ?s1 = "s\<lparr>loss_values := loss_values s @ [c], num_iter := num_iter s + 1\<rparr>"
  have u: "update L m b s = Inr ?s1" by (rule step [OF Cons.prems(1)])
  have q1: "Q ?s1" by (rule keep [OF Cons.prems(1)])
  show ?case
  proof (cases "num_iter s + 1 < mx")
    case False
    with Cons.prems(2) have "nat (mx - num_iter s) = 1" by arith
    then have k: "min (length (e # es)) (nat (mx - num_iter s)) = 1" by simp
    from False have "stop tol mx ?s1" by (simp add: stop_def)
    then show ?thesis
      unfolding k by (simp add: ld u)
  next
    case True
    have "num_iter ?s1 < mx" using True by simp
    note IH = Cons.IH [OF q1 this]
    from True have "nat (mx - num_iter s) = Suc (nat (mx - num_iter ?s1))" by simp
    then have k: "min (length (e # es)) (nat (mx - num_iter s)) =
        Suc (min (length es) (nat (mx - num_iter ?s1)))"
      by simp
    from True best [OF q1] have "\<not> stop tol mx ?s1" by (simp add: stop_def)
    then show ?thesis
      unfolding k using IH by (simp add: ld u)
  qed
qed

lemma steady_library_sel:
  "optimizer_init (steady_library c) = ()" "shuffle (steady_library c) = (\<lambda>epoch p. p)"
  "model_loss (steady_library c) ws b = Inr c"
  "optimizer_step (steady_library c) p ws b = (p, ws)"
  by (simp_all add: steady_library_def)

lemma one_row_loader: "data_loader one_row (nat 1) (\<lambda>epoch p. p) e = [Matrix 1 1 [[0]]]"
  by (simp add: data_loader_def num_batches_def one_row_def)

lemma steady_update:
  "update (steady_library c) scalar_model b s =
   Inr (s\<lparr>best_loss := (if flt c (best_loss s) then c else best_loss s),
          best_state := (if flt c (best_loss s) then Some [(''W'', 0)] else best_state s),
          loss_values := loss_values s @ [c], num_iter := num_iter s + 1\<rparr>)"
  by (cases s)
     (simp add: update_def steady_library_sel scalar_model_def parameters_def read_params_def
        state_dict_def)

lemma steady_run:
  assumes "\<not> flt c (Fin tol)" and "\<not> flt c c" and "flt c PosInf" and "1 < mx"
  shows "train_sffn (steady_library c) scalar_model h one_row mx tol 1 =
         Inr \<lparr>heap = h, opt = (), best_loss = c, best_state = Some [(''W'', 0)],
              loss_values = replicate (Suc (min 9999 (nat (mx - 1)))) c,
              num_iter = 1 + int (min 9999 (nat (mx - 1)))\<rparr>"
proof -
  let ?L = "steady_library c"
  let ?s1 = "\<lparr>heap = h, opt = (), best_loss = c, best_state = Some [(''W'', 0)],
              loss_values = [c], num_iter = 1\<rparr>"
  have first: "update ?L scalar_model (Matrix 1 1 [[0]]) (init_state ?L h) = Inr ?s1"
    unfolding steady_update using assms(3)
    by (simp add: init_state_def steady_library_sel)
  have step: "update ?L scalar_model (Matrix 1 1 [[0]]) s =
      Inr (s\<lparr>loss_values := loss_values s @ [c], num_iter := num_iter s + 1\<rparr>)"
    if "best_loss s = c" for s :: "(real, unit) train_state"
    unfolding steady_update using that assms(2) by simp
  have rest: "epoch_loop ?L scalar_model tol mx (data_loader one_row (nat 1) (\<lambda>epoch p. p))
          [Suc 0..<10000] ?s1 =
        Inr (?s1\<lparr>loss_values := loss_values ?s1 @
                    replicate (min (length [Suc 0..<10000]) (nat (mx - num_iter ?s1))) c,
                  num_iter := num_iter ?s1 +
                    int (min (length [Suc 0..<10000]) (nat (mx - num_iter ?s1)))\<rparr>)"
    by (rule steady_epochs [where Q = "\<lambda>s. best_loss s = c", OF step _ _ one_row_loader])
       (simp_all add: assms(1,4))
  have ns: "\<not> stop tol mx ?s1" using assms(1,4) by (simp add: stop_def)
  have start: "train_sffn ?L scalar_model h one_row mx tol 1 =
      epoch_loop ?L scalar_model tol mx (data_loader one_row (nat 1) (\<lambda>epoch p. p))
        (0 # [Suc 0..<10000]) (init_state ?L h)"
    unfolding train_sffn_def epochs_unfold steady_library_sel
    by (simp add: one_row_def scalar_model_def parameters_def)
  show ?thesis
    using ns rest
    unfolding start epoch_loop.simps one_row_loader batch_loop.simps first
    by simp
qed

text \<open>
  The 5000 of the call site, on the scalar model with a loss that stays at 1: the cap
  stops the run at the 5000th update.
\<close>

theorem train_sffn_bounded_witness:
  "train_sffn (steady_library (Fin 1)) scalar_model (\<lambda>a. 0) one_row 5000 (1 / 10 ^ 9) 1 =
     Inr \<lparr>heap = (\<lambda>a. 0), opt = (), best_loss = Fin 1, best_state = Some [(''W'', 0)],
          loss_values = replicate 5000 (Fin 1), num_iter = 5000\<rparr> \<and>
   run_updates (steady_library (Fin 1)) scalar_model
     (take 5000 (all_batches one_row 1 (\<lambda>epoch p. p)))
     (init_state (steady_library (Fin 1)) (\<lambda>a. 0)) =
     Inr \<lparr>heap = (\<lambda>a. 0), opt = (), best_loss = Fin 1, best_state = Some [(''W'', 0)],
          loss_values = replicate 5000 (Fin 1), num_iter = 5000\<rparr> \<and>
   shape0 one_row = 1 \<and> parameters scalar_model = [0] \<and>
   (5000::int) \<le> max 5000 1 \<and> (5000::int) \<le> 10000 * int (num_batches 1 1)"
proof -
  let ?s = "\<lparr>heap = (\<lambda>a. 0::real), opt = (), best_loss = Fin 1,
             best_state = Some [(''W'', 0)], loss_values = replicate 5000 (Fin 1),
             num_iter = 5000\<rparr>"
  have run: "train_sffn (steady_library (Fin 1)) scalar_model (\<lambda>a. 0) one_row 5000
               (1 / 10 ^ 9) 1 = Inr ?s"
    using steady_run [of "Fin 1" "1 / 10 ^ 9" 5000 "\<lambda>a. 0"] by simp
  from train_sffn_bounded [of "steady_library (Fin 1)" scalar_model "\<lambda>a. 0" one_row 5000
      "1 / 10 ^ 9" 1]
  have "run_updates (steady_library (Fin 1)) scalar_model
          (take (nat (num_iter ?s)) (all_batches one_row (nat 1) (shuffle (steady_library (Fin 1)))))
          (init_state (steady_library (Fin 1)) (\<lambda>a. 0)) = Inr ?s \<and>
        num_iter ?s \<le> max 5000 1 \<and>
        num_iter ?s \<le> 10000 * int (num_batches (shape0 one_row) (nat 1))"
    unfolding run by simp
  then show ?thesis
    using run
    by (simp add: steady_library_sel one_row_def scalar_model_def parameters_def)
qed

lemma steady_first:
  assumes "flt c PosInf" and "mx \<le> 1"
  shows "train_sffn (steady_library c) scalar_model h one_row mx tol 1 =
         Inr \<lparr>heap = h, opt = (), best_loss = c, best_state = Some [(''W'', 0)],
              loss_values = [c], num_iter = 1\<rparr>"
proof -
  let ?L = "steady_library c"
  let ?s1 = "\<lparr>heap = h, opt = (), best_loss = c, best_state = Some [(''W'', 0)],
              loss_values = [c], num_iter = 1\<rparr>"
  have first: "update ?L scalar_model (Matrix 1 1 [[0]]) (init_state ?L h) = Inr ?s1"
    unfolding steady_update using assms(1)
    by (simp add: init_state_def steady_library_sel)
  have st: "stop tol mx ?s1" using assms(2) by (simp add: stop_def)
  have start: "train_sffn ?L scalar_model h one_row mx tol 1 =
      epoch_loop ?L scalar_model tol mx (data_loader one_row (nat 1) (\<lambda>epoch p. p))
        (0 # [Suc 0..<10000]) (init_state ?L h)"
    unfolding train_sffn_def epochs_unfold steady_library_sel
    by (simp add: one_row_def scalar_model_def parameters_def)
  show ?thesis
    using st
    unfolding start epoch_loop.simps one_row_loader batch_loop.simps first
    by simp
qed

text \<open>
  C2 as stated fails for \<open>max_iters = 0\<close>: on the scalar model and a data set with one
  row, the update of the first batch is performed before the cap is tested, and the
  returned \<open>num_iter\<close> is 1.
\<close>

theorem train_sffn_zero_cap_counterexample:
  "train_sffn (steady_library (Fin 1)) scalar_model (\<lambda>a. 0) one_row 0 (1 / 10 ^ 9) 1 =
     Inr \<lparr>heap = (\<lambda>a. 0), opt = (), best_loss = Fin 1, best_state = Some [(''W'', 0)],
          loss_values = [Fin 1], num_iter = 1\<rparr> \<and>
   \<not> (1::int) \<le> 0"
  using steady_first [of "Fin 1" 0 "\<lambda>a. 0" "1 / 10 ^ 9"] by simp

subsection \<open>How the function is left\<close>

text \<open>
  C3, as the code has it. For \<open>max_iters\<close> at least 1, \<open>train_sffn\<close> returns with
  \<open>best_loss < tol\<close>, or with \<open>num_iter = max_iters\<close>, or after all 10000 epochs with
  \<open>num_iter\<close> the number of their mini-batches and still below \<open>max_iters\<close>. A call
  that returns has a data set with at least one row, so every epoch has at least one
  mini-batch; with \<open>max_iters\<close> at most 10000 (the call site has 5000) the third case
  does not occur.
\<close>

theorem train_sffn_exit:
  assumes "train_sffn L model h dataset max_iters tol batch_size = Inr s"
    and "1 \<le> max_iters"
  shows "(flt (best_loss s) (Fin tol) \<or> num_iter s = max_iters \<or>
            (num_iter s = 10000 * int (num_batches (shape0 dataset) (nat batch_size)) \<and>
             num_iter s < max_iters)) \<and>
         (max_iters \<le> 10000 \<longrightarrow> flt (best_loss s) (Fin tol) \<or> num_iter s = max_iters)"
proof -
  note le = train_sffn_counts(4) [OF assms(1)]
  note run = train_sffn_counts(6) [OF assms(1)]
  have "0 < num_batches (shape0 dataset) (nat batch_size)"
    using train_sffn_returns(1,2) [OF assms(1)] by (intro num_batches_pos) simp_all
  then have total: "10000 \<le> 10000 * int (num_batches (shape0 dataset) (nat batch_size))"
    by simp
  show ?thesis
  proof (cases "stop tol max_iters s")
    case True
    with le assms(2) show ?thesis by (auto simp: stop_def)
  next
    case False
    with run have "num_iter s = 10000 * int (num_batches (shape0 dataset) (nat batch_size))"
      by simp
    moreover from False have "num_iter s < max_iters" by (simp add: stop_def)
    ultimately show ?thesis using total by auto
  qed
qed

lemma scalar_library_sel:
  "optimizer_init scalar_library = ()" "shuffle scalar_library = (\<lambda>epoch p. p)"
  "model_loss scalar_library [w] b = Inr (Fin ((w - entry b 0 0)\<^sup>2))"
  "optimizer_step scalar_library p ws b = (p, map (\<lambda>w. (w + entry b 0 0) / 2) ws)"
  by (simp_all add: scalar_library_def)

lemma two_rows_loader:
  "data_loader two_rows (nat 1) (\<lambda>epoch p. p) e = [Matrix 1 1 [[1]], Matrix 1 1 [[3]]]"
  by (simp add: data_loader_def num_batches_def two_rows_def upt_rec)

lemma scalar_update:
  "update scalar_library scalar_model b
     \<lparr>heap = h, opt = (), best_loss = bl, best_state = bs, loss_values = ls, num_iter = n\<rparr> =
   Inr \<lparr>heap = h(0 := (h 0 + entry b 0 0) / 2), opt = (),
        best_loss = (if flt (Fin ((h 0 - entry b 0 0)\<^sup>2)) bl
                     then Fin ((h 0 - entry b 0 0)\<^sup>2) else bl),
        best_state = (if flt (Fin ((h 0 - entry b 0 0)\<^sup>2)) bl then Some [(''W'', 0)] else bs),
        loss_values = ls @ [Fin ((h 0 - entry b 0 0)\<^sup>2)], num_iter = n + 1\<rparr>"
  by (simp add: update_def scalar_library_sel scalar_model_def parameters_def read_params_def
      state_dict_def)

lemma scalar_start:
  "train_sffn scalar_library scalar_model h two_rows mx tol 1 =
     epoch_loop scalar_library scalar_model tol mx (data_loader two_rows (nat 1) (\<lambda>epoch p. p))
       (0 # Suc 0 # [Suc (Suc 0)..<10000])
       \<lparr>heap = h, opt = (), best_loss = PosInf, best_state = None, loss_values = [],
        num_iter = 0\<rparr>"
proof -
  have "[Suc 0..<10000] = Suc 0 # [Suc (Suc 0)..<10000]"
    by (rule upt_conv_Cons) simp
  then have "[0..<10000] = 0 # Suc 0 # [Suc (Suc 0)..<10000]"
    by (simp only: epochs_unfold)
  then show ?thesis
    unfolding train_sffn_def init_state_def scalar_library_sel
    by (simp add: two_rows_def scalar_model_def parameters_def)
qed

lemma scalar_run:
  "train_sffn scalar_library scalar_model (\<lambda>a. 0) two_rows 2 (1 / 10 ^ 9) 1 =
     Inr \<lparr>heap = (\<lambda>a. 0)(0 := 7 / 4), opt = (), best_loss = Fin 1,
          best_state = Some [(''W'', 0)], loss_values = [Fin 1, Fin (25 / 4)], num_iter = 2\<rparr>"
  unfolding scalar_start epoch_loop.simps two_rows_loader batch_loop.simps
  by (simp add: scalar_update stop_def power2_eq_square entry_def)

lemma scalar_run3:
  "train_sffn scalar_library scalar_model (\<lambda>a. 0) two_rows 3 (1 / 10 ^ 9) 1 =
     Inr \<lparr>heap = (\<lambda>a. 0)(0 := 11 / 8), opt = (), best_loss = Fin (9 / 16),
          best_state = Some [(''W'', 0)], loss_values = [Fin 1, Fin (25 / 4), Fin (9 / 16)],
          num_iter = 3\<rparr>"
  unfolding scalar_start epoch_loop.simps two_rows_loader batch_loop.simps
  by (simp add: scalar_update stop_def power2_eq_square entry_def)

text \<open>
  A run that stops at the cap in the middle of the second epoch: the scalar model on the
  two rows, one row per batch, \<open>max_iters = 3\<close>.
\<close>

theorem train_sffn_exit_witness:
  "train_sffn scalar_library scalar_model (\<lambda>a. 0) two_rows 3 (1 / 10 ^ 9) 1 =
     Inr \<lparr>heap = (\<lambda>a. 0)(0 := 11 / 8), opt = (), best_loss = Fin (9 / 16),
          best_state = Some [(''W'', 0)], loss_values = [Fin 1, Fin (25 / 4), Fin (9 / 16)],
          num_iter = 3\<rparr> \<and>
   (1::int) \<le> 3 \<and> (3::int) \<le> 10000 \<and> \<not> flt (Fin (9 / 16)) (Fin (1 / 10 ^ 9)) \<and>
   (3::int) \<noteq> 10000 * int (num_batches (shape0 two_rows) (nat 1))"
proof -
  have "(1::int) \<le> 3" by simp
  from train_sffn_exit [OF scalar_run3 this] show ?thesis
    using scalar_run3 by (simp add: two_rows_def num_batches_def)
qed

text \<open>
  C3 as stated fails when \<open>max_iters\<close> exceeds the number of mini-batches of 10000 epochs:
  on the scalar model and a data set with one row (one mini-batch per epoch), with a loss
  that stays at 1 and \<open>max_iters = 10001\<close>, the function returns after 10000 updates with
  \<open>best_loss = 1\<close>, not below \<open>tol\<close>, and \<open>num_iter = 10000 < max_iters\<close>.
\<close>

theorem train_sffn_epoch_cap_counterexample:
  "train_sffn (steady_library (Fin 1)) scalar_model (\<lambda>a. 0) one_row 10001 (1 / 10 ^ 9) 1 =
     Inr \<lparr>heap = (\<lambda>a. 0), opt = (), best_loss = Fin 1, best_state = Some [(''W'', 0)],
          loss_values = replicate 10000 (Fin 1), num_iter = 10000\<rparr> \<and>
   shape0 one_row = 1 \<and> num_batches 1 1 = 1 \<and>
   \<not> flt (Fin 1) (Fin (1 / 10 ^ 9)) \<and> (10000::int) \<noteq> 10001 \<and> (10000::int) < 10001"
  using steady_run [of "Fin 1" "1 / 10 ^ 9" 10001 "\<lambda>a. 0"]
  by (simp add: one_row_def num_batches_def)

subsection \<open>The best loss and the best state\<close>

text \<open>
  C4, as the code has it. For every run of \<open>train_sffn\<close> that performs at least one
  update, the length of the returned \<open>loss_values\<close> is the returned \<open>num_iter\<close> and
  the returned \<open>best_loss\<close> is \<open>min([float('inf')] + loss_values)\<close>; it is
  \<open>min(loss_values)\<close> whenever the first recorded loss is not nan, and the least of the
  recorded losses when they are all real numbers.
\<close>

theorem train_sffn_best_loss_min:
  assumes "train_sffn L model h dataset max_iters tol batch_size = Inr s"
    and "1 \<le> num_iter s"
  shows "int (length (loss_values s)) = num_iter s \<and>
         py_min (PosInf # loss_values s) = Inr (best_loss s) \<and>
         (hd (loss_values s) \<noteq> NaN \<longrightarrow> py_min (loss_values s) = Inr (best_loss s)) \<and>
         (\<forall>rs. loss_values s = map Fin rs \<longrightarrow> best_loss s = Fin (Min (set rs)))"
proof -
  from tracked_epoch_loop [OF train_sffn_returns(4) [OF assms(1)] tracked_init]
  have len: "int (length (loss_values s)) = num_iter s"
    and best: "py_min (PosInf # loss_values s) = Inr (best_loss s)"
    by (simp_all add: tracked_def)
  from len assms(2) obtain x xs where ls: "loss_values s = x # xs"
    by (cases "loss_values s") auto
  have first: "py_min (loss_values s) = Inr (best_loss s)" if "hd (loss_values s) \<noteq> NaN"
    using that best py_min_first [of x xs] by (simp add: ls)
  have "best_loss s = Fin (Min (set rs))" if rs: "loss_values s = map Fin rs" for rs
  proof -
    from rs ls have ne: "rs \<noteq> []" by auto
    then have "hd (loss_values s) \<noteq> NaN" by (cases rs) (simp_all add: rs)
    from first [OF this] py_min_Fin [OF ne] show ?thesis by (simp add: rs)
  qed
  with len best first show ?thesis by blast
qed

text \<open>Two updates of the scalar model, with the losses 1 and 25/4.\<close>

theorem train_sffn_best_loss_min_witness:
  "train_sffn scalar_library scalar_model (\<lambda>a. 0) two_rows 2 (1 / 10 ^ 9) 1 =
     Inr \<lparr>heap = (\<lambda>a. 0)(0 := 7 / 4), opt = (), best_loss = Fin 1,
          best_state = Some [(''W'', 0)], loss_values = [Fin 1, Fin (25 / 4)], num_iter = 2\<rparr> \<and>
   (1::int) \<le> 2 \<and> int (length [Fin 1, Fin (25 / 4)]) = 2 \<and>
   py_min [Fin 1, Fin (25 / 4)] = Inr (Fin 1) \<and> Fin 1 = Fin (Min (set [1, 25 / 4]))"
proof -
  have "(1::int) \<le> num_iter \<lparr>heap = (\<lambda>a. 0::real)(0 := 7 / 4), opt = (), best_loss = Fin 1,
          best_state = Some [(''W'', 0)], loss_values = [Fin 1, Fin (25 / 4)], num_iter = 2\<rparr>"
    by simp
  from train_sffn_best_loss_min [OF scalar_run this] show ?thesis
    using scalar_run by simp
qed

lemma nan_run:
  "train_sffn (steady_library NaN) scalar_model h one_row 3 tol 1 =
     Inr \<lparr>heap = h, opt = (), best_loss = PosInf, best_state = None,
          loss_values = [NaN, NaN, NaN], num_iter = 3\<rparr>"
proof -
  let ?L = "steady_library NaN"
  let ?s0 = "\<lparr>heap = h, opt = (), best_loss = PosInf, best_state = None,
              loss_values = [], num_iter = 0\<rparr>"
  have step: "update ?L scalar_model (Matrix 1 1 [[0]]) s =
      Inr (s\<lparr>loss_values := loss_values s @ [NaN], num_iter := num_iter s + 1\<rparr>)"
    if "best_loss s = PosInf" for s :: "(real, unit) train_state"
    unfolding steady_update using that by simp
  have "epoch_loop ?L scalar_model tol 3 (data_loader one_row (nat 1) (\<lambda>epoch p. p))
          [0..<10000] ?s0 =
        Inr (?s0\<lparr>loss_values := loss_values ?s0 @
                    replicate (min (length [0..<10000]) (nat (3 - num_iter ?s0))) NaN,
                  num_iter := num_iter ?s0 +
                    int (min (length [0..<10000]) (nat (3 - num_iter ?s0)))\<rparr>)"
    by (rule steady_epochs [where Q = "\<lambda>s. best_loss s = PosInf", OF step _ _ one_row_loader])
       simp_all
  then have "epoch_loop ?L scalar_model tol 3 (data_loader one_row (nat 1) (\<lambda>epoch p. p))
          [0..<10000] ?s0 =
        Inr \<lparr>heap = h, opt = (), best_loss = PosInf, best_state = None,
             loss_values = [NaN, NaN, NaN], num_iter = 3\<rparr>"
    by (simp add: numeral_3_eq_3)
  then show ?thesis
    unfolding train_sffn_def init_state_def steady_library_sel
    by (simp add: one_row_def scalar_model_def parameters_def)
qed

text \<open>
  C4 as stated fails when the first loss is nan: \<open>cur_loss < best_loss\<close> is then false,
  \<open>best_loss\<close> stays at \<open>float('inf')\<close>, and \<open>min\<close> of the recorded losses is nan. The
  scalar model with a loss that is nan at every batch, \<open>max_iters = 3\<close>.
\<close>

theorem train_sffn_nan_loss_counterexample:
  "train_sffn (steady_library NaN) scalar_model (\<lambda>a. 0) one_row 3 (1 / 10 ^ 9) 1 =
     Inr \<lparr>heap = (\<lambda>a. 0), opt = (), best_loss = PosInf, best_state = None,
          loss_values = [NaN, NaN, NaN], num_iter = 3\<rparr> \<and>
   (1::int) \<le> 3 \<and> py_min [NaN, NaN, NaN] = Inr NaN \<and> PosInf \<noteq> NaN \<and>
   PosInf \<notin> set [NaN, NaN, NaN]"
  using nan_run [of "\<lambda>a. 0" "1 / 10 ^ 9"] by simp

text \<open>
  \<open>best_state\<close> is never a copy: it is the dictionary of references that
  \<open>model.state_dict()\<close> returned, so what it holds when \<open>train_sffn\<close> returns are the
  parameters as the last update left them.
\<close>

lemma best_state_update:
  assumes "update L m b s = Inr s'"
    and "best_state s = None \<or> best_state s = Some (state_dict m)"
  shows "best_state s' = None \<or> best_state s' = Some (state_dict m)"
  using assms by (auto elim!: update_cases split: if_splits)

lemma best_state_batch_loop:
  "batch_loop L m tol mx bs s = Inr s' \<Longrightarrow>
   best_state s = None \<or> best_state s = Some (state_dict m) \<Longrightarrow>
   best_state s' = None \<or> best_state s' = Some (state_dict m)"
proof (induction bs arbitrary: s)
  case Nil
  then show ?case by simp
next
  case (Cons b bs)
  from Cons.prems(1) obtain s1 where u: "update L m b s = Inr s1"
    by (auto split: sum.splits)
  note b1 = best_state_update [OF u Cons.prems(2)]
  show ?case
  proof (cases "stop tol mx s1")
    case True
    with Cons.prems(1) u b1 show ?thesis by simp
  next
    case False
    with Cons.prems(1) u have "batch_loop L m tol mx bs s1 = Inr s'" by simp
    from Cons.IH [OF this b1] show ?thesis .
  qed
qed

lemma best_state_epoch_loop:
  "epoch_loop L m tol mx ld es s = Inr s' \<Longrightarrow>
   best_state s = None \<or> best_state s = Some (state_dict m) \<Longrightarrow>
   best_state s' = None \<or> best_state s' = Some (state_dict m)"
proof (induction es arbitrary: s)
  case Nil
  then show ?case by simp
next
  case (Cons e es)
  from Cons.prems(1) obtain s1 where u: "batch_loop L m tol mx (ld e) s = Inr s1"
    by (auto split: sum.splits)
  note b1 = best_state_batch_loop [OF u Cons.prems(2)]
  show ?case
  proof (cases "stop tol mx s1")
    case True
    with Cons.prems(1) u b1 show ?thesis by simp
  next
    case False
    with Cons.prems(1) u have "epoch_loop L m tol mx ld es s1 = Inr s'" by simp
    from Cons.IH [OF this b1] show ?thesis .
  qed
qed

lemma train_sffn_best_state:
  assumes "train_sffn L model h dataset max_iters tol batch_size = Inr s"
  shows "best_state s = None \<or> best_state s = Some (state_dict model)"
  using train_sffn_returns(4) [OF assms]
  by (rule best_state_epoch_loop) (simp add: init_state_def)

lemma train_sffn_best_state_live:
  assumes "train_sffn L model h dataset max_iters tol batch_size = Inr s"
    and "best_state s = Some sd"
  shows "deref (heap s) sd = deref (heap s) (state_dict model)"
  using train_sffn_best_state [OF assms(1)] assms(2) by simp

text \<open>
  C5 says that the returned \<open>best_state\<close> holds the parameters as they were right after
  the update that achieved \<open>best_loss\<close>. On the run with two updates the best loss 1 is
  achieved by the first update, after which the parameter is 1/2; the returned
  \<open>best_state\<close> holds 7/4, the parameter after the second update.
\<close>

theorem train_sffn_best_state_holds_last_parameters:
  "train_sffn scalar_library scalar_model (\<lambda>a. 0) two_rows 2 (1 / 10 ^ 9) 1 =
     Inr \<lparr>heap = (\<lambda>a. 0)(0 := 7 / 4), opt = (), best_loss = Fin 1,
          best_state = Some [(''W'', 0)], loss_values = [Fin 1, Fin (25 / 4)], num_iter = 2\<rparr> \<and>
   deref ((\<lambda>a. 0)(0 := 7 / 4)) [(''W'', 0)] = [(''W'', 7 / 4 :: real)] \<and>
   update scalar_library scalar_model (Matrix 1 1 [[1]])
     \<lparr>heap = (\<lambda>a. 0), opt = (), best_loss = PosInf, best_state = None,
      loss_values = [], num_iter = 0\<rparr> =
     Inr \<lparr>heap = (\<lambda>a. 0)(0 := 1 / 2), opt = (), best_loss = Fin 1,
          best_state = Some [(''W'', 0)], loss_values = [Fin 1], num_iter = 1\<rparr> \<and>
   deref ((\<lambda>a. 0)(0 := 1 / 2)) [(''W'', 0)] = [(''W'', 1 / 2 :: real)]"
  using scalar_run by (simp add: scalar_update deref_def entry_def)

section \<open>Facts about the prescaling\<close>

lemma map2_same_upt:
  "map2 f (map g [0..<n]) (map h [0..<n]) = map (\<lambda>j. f (g j) (h j)) [0..<n]"
  by (simp add: zip_map_map zip_same_conv_map del: upt_Suc)

lemma col_nonempty: "0 < shape0 A \<Longrightarrow> wf_matrix A \<Longrightarrow> col A j \<noteq> []"
  by (auto simp: col_def wf_matrix_def)

lemma col_range_nonneg:
  assumes "0 < shape0 A" "wf_matrix A"
  shows "0 \<le> col_range A j"
proof -
  have "set (col A j) \<noteq> {}" using col_nonempty [OF assms] by simp
  then have "Min (set (col A j)) \<le> Max (set (col A j))"
    by (simp add: Min_le_iff)
  then show ?thesis by (simp add: col_range_def)
qed

lemma guard_diffs:
  assumes "0 < shape0 A"
  shows "amin0 A = Inr (map (\<lambda>j. Min (set (col A j))) [0..<shape1 A])"
    and "amax0 A = Inr (map (\<lambda>j. Max (set (col A j))) [0..<shape1 A])"
    and "map2 (-) (map (\<lambda>j. Max (set (col A j))) [0..<shape1 A])
                  (map (\<lambda>j. Min (set (col A j))) [0..<shape1 A]) = map (col_range A) [0..<shape1 A]"
  using assms by (simp_all add: amin0_def amax0_def map2_same_upt col_range_def del: upt_Suc)

lemma prescale_unfold:
  assumes "0 < shape0 A"
  shows "prescale A =
     (if \<exists>j<shape1 A. \<bar>col_range A j\<bar> < sqrt float_eps then Inl SystemExit
      else Inr (Matrix (shape0 A) (shape1 A)
             (map (\<lambda>r. map2 (*) (map2 (-) r (map (\<lambda>j. sum_list (col A j) / real (shape0 A)) [0..<shape1 A]))
                     (map (\<lambda>j. 2 / col_range A j) [0..<shape1 A])) (rows A))))"
proof -
  have ex: "list_ex (\<lambda>d. \<bar>d\<bar> < sqrt float_eps) (map (col_range A) [0..<shape1 A]) \<longleftrightarrow>
        (\<exists>j<shape1 A. \<bar>col_range A j\<bar> < sqrt float_eps)"
    by (auto simp: list_ex_iff)
  show ?thesis
    using assms
    by (simp add: prescale_def guard_diffs ex mean0_def broadcast_rows_def Let_def comp_def
        del: upt_Suc)
qed


lemma sqrt_float_eps_pos: "0 < sqrt float_eps"
  by (simp add: float_eps_def)

lemma prescale_empty: "shape0 A = 0 \<Longrightarrow> prescale A = Inl ValueError"
  by (simp add: prescale_def amin0_def)

text \<open>
  C8. On data with at least one row, the script leaves through the \<open>sys.exit()\<close> of the
  prescaling exactly when some feature has a range \<open>\<bar>max - min\<bar>\<close> below the square root
  of the machine epsilon; it does so before the decomposition and the training are
  reached, whatever they would do. When it goes on, every divisor \<open>maxD - minD\<close> of
  \<open>cofs\<close> is different from 0.
\<close>

theorem prescale_guard:
  assumes "wf_matrix Data" and "0 < shape0 Data"
  shows "(prescale Data = Inl SystemExit \<longleftrightarrow>
            (\<exists>j<shape1 Data. \<bar>col_range Data j\<bar> < sqrt float_eps)) \<and>
         (script env Data = Inl SystemExit \<or>
            \<not> (\<exists>j<shape1 Data. \<bar>col_range Data j\<bar> < sqrt float_eps)) \<and>
         (prescale Data = Inl SystemExit \<or>
            (\<exists>X minD maxD. prescale Data = Inr X \<and> amin0 Data = Inr minD \<and>
               amax0 Data = Inr maxD \<and> list_all (\<lambda>d. d \<noteq> 0) (map2 (-) maxD minD)))"
proof (cases "\<exists>j<shape1 Data. \<bar>col_range Data j\<bar> < sqrt float_eps")
  case True
  then show ?thesis by (simp add: prescale_unfold [OF assms(2)] script_def ebind_def)
next
  case False
  have "col_range Data j \<noteq> 0" if "j < shape1 Data" for j
  proof
    assume "col_range Data j = 0"
    with sqrt_float_eps_pos have "\<bar>col_range Data j\<bar> < sqrt float_eps" by simp
    with False that show False by blast
  qed
  then have "list_all (\<lambda>d. d \<noteq> 0) (map (col_range Data) [0..<shape1 Data])"
    by (simp add: list_all_iff)
  with False show ?thesis
    by (simp add: prescale_unfold [OF assms(2)] guard_diffs [OF assms(2)])
qed

lemma sum_list_affine:
  "sum_list (map (\<lambda>d. (d - m) * c) xs) = (sum_list xs - real (length xs) * m) * (c::real)"
  by (induction xs) (simp_all add: algebra_simps)

lemma Max_affine:
  assumes "xs \<noteq> []" and "0 \<le> (c::real)"
  shows "Max (set (map (\<lambda>d. (d - m) * c) xs)) = (Max (set xs) - m) * c"
proof -
  have "mono (\<lambda>d. (d - m) * c)"
    using assms(2) by (auto intro!: monoI mult_right_mono)
  from mono_Max_commute [OF this, of "set xs"] assms(1)
  show ?thesis by simp
qed

lemma Min_affine:
  assumes "xs \<noteq> []" and "0 \<le> (c::real)"
  shows "Min (set (map (\<lambda>d. (d - m) * c) xs)) = (Min (set xs) - m) * c"
proof -
  have "mono (\<lambda>d. (d - m) * c)"
    using assms(2) by (auto intro!: monoI mult_right_mono)
  from mono_Min_commute [OF this, of "set xs"] assms(1)
  show ?thesis by simp
qed

lemma affine_diff: "(a - m) * c - (b - m) * c = (a - b) * (c::real)"
  by (simp add: algebra_simps)

lemma col_prescaled:
  assumes "wf_matrix A" and "j < shape1 A"
  shows "col (Matrix (shape0 A) (shape1 A)
             (map (\<lambda>r. map2 (*) (map2 (-) r (map f [0..<shape1 A])) (map g [0..<shape1 A]))
                (rows A))) j =
         map (\<lambda>d. (d - f j) * g j) (col A j)"
proof -
  have "length r = shape1 A" if "r \<in> set (rows A)" for r
    using assms(1) that by (simp add: wf_matrix_def list_all_iff)
  then show ?thesis
    using assms(2) by (simp add: col_def)
qed

text \<open>
  C9. When the guard does not fire, every feature column of the prescaled matrix
  \<open>X = (Data - m) * cofs\<close> has mean 0 and range 2, in real arithmetic.
\<close>

theorem prescale_zero_mean_range_two:
  assumes "wf_matrix Data" and "prescale Data = Inr X"
  shows "shape0 X = shape0 Data \<and> shape1 X = shape1 Data \<and>
         mean0 X = Inr (replicate (shape1 Data) 0) \<and>
         (\<forall>j<shape1 Data. col_range X j = 2)"
proof -
  have N: "0 < shape0 Data"
    using assms(2) prescale_empty [of Data] by (cases "shape0 Data = 0") simp_all
  let ?m = "\<lambda>j. sum_list (col Data j) / real (shape0 Data)"
  let ?c = "\<lambda>j. 2 / col_range Data j"
  have ok: "\<not> (\<exists>j<shape1 Data. \<bar>col_range Data j\<bar> < sqrt float_eps)"
    and X: "X = Matrix (shape0 Data) (shape1 Data)
             (map (\<lambda>r. map2 (*) (map2 (-) r (map ?m [0..<shape1 Data]))
                     (map ?c [0..<shape1 Data])) (rows Data))"
    using assms(2) unfolding prescale_unfold [OF N] by (simp_all split: if_splits)
  have colX: "col X j = map (\<lambda>d. (d - ?m j) * ?c j) (col Data j)" if "j < shape1 Data" for j
    unfolding X by (rule col_prescaled [OF assms(1) that])
  have len: "length (col Data j) = shape0 Data" for j
    using assms(1) by (simp add: col_def wf_matrix_def)
  have pos: "0 < col_range Data j" if "j < shape1 Data" for j
  proof -
    have "\<not> \<bar>col_range Data j\<bar> < sqrt float_eps" using ok that by blast
    with sqrt_float_eps_pos col_range_nonneg [OF N assms(1), of j] show ?thesis by arith
  qed
  have mean: "sum_list (col X j) / real (shape0 Data) = 0" if "j < shape1 Data" for j
  proof -
    have "sum_list (col X j) = (sum_list (col Data j) - real (shape0 Data) * ?m j) * ?c j"
      unfolding colX [OF that] sum_list_affine len ..
    also have "\<dots> = 0" using N by simp
    finally show ?thesis by simp
  qed
  have range: "col_range X j = 2" if "j < shape1 Data" for j
  proof -
    have ne: "col Data j \<noteq> []" by (rule col_nonempty [OF N assms(1)])
    have c: "0 \<le> ?c j" using pos [OF that] by simp
    have "col_range X j = (Max (set (col Data j)) - ?m j) * ?c j - (Min (set (col Data j)) - ?m j) * ?c j"
      unfolding col_range_def [of X j] colX [OF that] Max_affine [OF ne c] Min_affine [OF ne c] ..
    also have "\<dots> = (Max (set (col Data j)) - Min (set (col Data j))) * ?c j"
      by (rule affine_diff)
    also have "\<dots> = col_range Data j * ?c j"
      by (simp only: col_range_def)
    also have "\<dots> = 2" using pos [OF that] by simp
    finally show ?thesis .
  qed
  have "mean0 X = Inr (map (\<lambda>j. sum_list (col X j) / real (shape0 Data)) [0..<shape1 Data])"
    using N by (simp add: mean0_def X)
  also have "map (\<lambda>j. sum_list (col X j) / real (shape0 Data)) [0..<shape1 Data] =
      map (\<lambda>j. 0) [0..<shape1 Data]"
    using mean by simp
  also have "\<dots> = replicate (shape1 Data) 0"
    by (simp add: map_replicate_const)
  finally have "mean0 X = Inr (replicate (shape1 Data) 0)" .
  with range show ?thesis by (simp add: X)
qed


lemma sqrt_float_eps: "sqrt float_eps = 1 / 2 ^ 26"
proof -
  have "float_eps = (1 / 2 ^ 26)\<^sup>2"
    by (simp add: float_eps_def power2_eq_square)
  then have "sqrt float_eps = sqrt ((1 / 2 ^ 26)\<^sup>2)"
    by (rule arg_cong)
  also have "\<dots> = \<bar>1 / 2 ^ 26\<bar>"
    by (rule real_sqrt_abs)
  finally show ?thesis by simp
qed

lemma prescale_example:
  "prescale (Matrix 2 2 [[0, 10], [1, 30]]) = Inr (Matrix 2 2 [[- 1, - 1], [1, 1]])"
  by (simp add: prescale_def amin0_def amax0_def mean0_def broadcast_rows_def col_def
      sqrt_float_eps upt_rec Let_def)

text \<open>The data \<open>[[0, 10], [1, 30]]\<close> is prescaled to \<open>[[-1, -1], [1, 1]]\<close>.\<close>

theorem prescale_zero_mean_range_two_witness:
  "wf_matrix (Matrix 2 2 [[0, 10], [1, 30]]) \<and>
   prescale (Matrix 2 2 [[0, 10], [1, 30]]) = Inr (Matrix 2 2 [[- 1, - 1], [1, 1]]) \<and>
   mean0 (Matrix 2 2 [[- 1, - 1], [1, 1]]) = Inr [0, 0] \<and>
   col_range (Matrix 2 2 [[- 1, - 1], [1, 1]]) 0 = 2 \<and>
   col_range (Matrix 2 2 [[- 1, - 1], [1, 1]]) 1 = 2"
proof -
  have wf: "wf_matrix (Matrix 2 2 [[0, 10], [1, 30]])"
    by (simp add: wf_matrix_def)
  from prescale_zero_mean_range_two [OF wf prescale_example]
  show ?thesis using wf prescale_example
    by (simp add: numeral_2_eq_2 less_Suc_eq)
qed

text \<open>A data set whose first feature is constant.\<close>

theorem prescale_guard_witness:
  "wf_matrix (Matrix 2 2 [[1, 5], [1, 7]]) \<and> 0 < shape0 (Matrix 2 2 [[1, 5], [1, 7]]) \<and>
   prescale (Matrix 2 2 [[1, 5], [1, 7]]) = Inl SystemExit \<and>
   script toy_env (Matrix 2 2 [[1, 5], [1, 7]]) = Inl SystemExit \<and>
   col_range (Matrix 2 2 [[1, 5], [1, 7]]) 0 = 0 \<and>
   \<bar>col_range (Matrix 2 2 [[1, 5], [1, 7]]) 0\<bar> < sqrt float_eps"
proof -
  have wf: "wf_matrix (Matrix 2 2 [[1, 5], [1, 7]])"
    by (simp add: wf_matrix_def)
  have r: "col_range (Matrix 2 2 [[1, 5], [1, 7]]) 0 = 0"
    by (simp add: col_range_def col_def)
  have N: "0 < shape0 (Matrix 2 2 [[1, 5], [1, 7]])" by simp
  have "\<exists>j<shape1 (Matrix 2 2 [[1, 5], [1, 7]]).
          \<bar>col_range (Matrix 2 2 [[1, 5], [1, 7]]) j\<bar> < sqrt float_eps"
    using r sqrt_float_eps_pos by (intro exI [of _ 0]) simp
  with prescale_guard [OF wf N, of toy_env]
  have "prescale (Matrix 2 2 [[1, 5], [1, 7]]) = Inl SystemExit"
    and "script toy_env (Matrix 2 2 [[1, 5], [1, 7]]) = Inl SystemExit"
    by blast+
  with wf r sqrt_float_eps_pos show ?thesis by simp
qed

section \<open>Facts about the sweep\<close>

lemma bidx_less: "i < d \<Longrightarrow> bidx d i = i"
  by (simp add: bidx_def)

lemma broadcast_same:
  assumes "shape0 A = shape0 B" and "shape1 A = shape1 B"
  shows "broadcast f A B =
         Inr (tabulate (shape0 A) (shape1 A) (\<lambda>i j. f (entry A i j) (entry B i j)))"
proof -
  have "tabulate (shape0 A) (shape1 A)
          (\<lambda>i j. f (entry A (bidx (shape0 A) i) (bidx (shape1 A) j))
                   (entry B (bidx (shape0 B) i) (bidx (shape1 B) j))) =
        tabulate (shape0 A) (shape1 A) (\<lambda>i j. f (entry A i j) (entry B i j))"
    by (rule tabulate_cong) (simp add: bidx_less assms [symmetric])
  then show ?thesis
    using assms by (simp add: broadcast_def bdim_def)
qed

lemma sum_list_concat_rows:
  "sum_list (concat (map (\<lambda>i. map (f i) [0..<c]) xs)) =
   sum_list (map (\<lambda>i. sum_list (map (f i) [0..<c])) xs)"
  by (induction xs) simp_all

lemma mean_all_tabulate:
  "mean_all (tabulate r c f) =
     (if r * c = 0 then Inl NotANumber
      else Inr (sum_list (map (\<lambda>i. sum_list (map (f i) [0..<c])) [0..<r]) / real (r * c)))"
  unfolding mean_all_def shape_tabulate
  by (simp add: tabulate_def sum_list_concat_rows del: upt_Suc)

lemma mse_same:
  assumes "shape0 A = shape0 B" and "shape1 A = shape1 B"
  shows "mse A B =
     (if shape0 A * shape1 A = 0 then Inl NotANumber
      else Inr (sum_list (map (\<lambda>i. sum_list (map (\<lambda>j. (entry A i j - entry B i j)\<^sup>2)
                                           [0..<shape1 A])) [0..<shape0 A])
                / real (shape0 A * shape1 A)))"
  by (simp add: mse_def broadcast_same [OF assms] map_matrix_tabulate mean_all_tabulate
      del: upt_Suc)

lemma forward_shape:
  assumes "forward W x = Inr out"
  shows "shape0 out = shape0 x \<and> shape1 out = shape1 x"
proof -
  have eq: "shape1 W = shape1 x"
    using assms by (auto simp: forward_def matmul_def split: if_splits)
  from forward_entries [OF eq] assms show ?thesis
    by (auto simp: eq)
qed


lemma matmul_shape:
  assumes "matmul A B = Inr C"
  shows "shape0 C = shape0 A \<and> shape1 C = shape1 B"
  using assms by (auto simp: matmul_def split: if_splits)

lemma rms_diff_residual:
  assumes P: "shape0 P = shape0 X" "shape1 P = shape1 X"
    and A: "shape0 A = shape0 X" "shape1 A = shape1 X"
    and R: "broadcast (-) X P = Inr R"
    and m: "mse A R = Inr v"
  shows "sqrt v = rms_diff X (additive_reconstruction P A)"
proof -
  let ?N = "shape0 X" and ?n = "shape1 X"
  have R': "R = tabulate ?N ?n (\<lambda>i j. entry X i j - entry P i j)"
    using R broadcast_same [of X P "(-)"] P by simp
  have shR: "shape0 A = shape0 R" "shape1 A = shape1 R"
    by (simp_all add: R' A)
  have inner: "sum_list (map (\<lambda>j. (entry A i j - entry R i j)\<^sup>2) [0..<?n]) =
               sum_list (map (\<lambda>j. (entry X i j - entry (additive_reconstruction P A) i j)\<^sup>2)
                           [0..<?n])"
    if "i < ?N" for i
  proof (rule sum_list_upt_cong)
    fix j assume "j < ?n"
    with that have e: "entry R i j = entry X i j - entry P i j"
      "entry (additive_reconstruction P A) i j = entry P i j + entry A i j"
      by (simp_all add: R' additive_reconstruction_def P)
    show "(entry A i j - entry R i j)\<^sup>2 =
               (entry X i j - entry (additive_reconstruction P A) i j)\<^sup>2"
      unfolding e by (simp add: power2_eq_square algebra_simps)
  qed
  have sums: "sum_list (map (\<lambda>i. sum_list (map (\<lambda>j. (entry A i j - entry R i j)\<^sup>2) [0..<?n]))
                         [0..<?N]) =
              sum_list (map (\<lambda>i. sum_list (map (\<lambda>j. (entry X i j -
                              entry (additive_reconstruction P A) i j)\<^sup>2) [0..<?n])) [0..<?N])"
    by (rule sum_list_upt_cong) (rule inner)
  from m have "v = sum_list (map (\<lambda>i. sum_list (map (\<lambda>j. (entry A i j - entry R i j)\<^sup>2)
                                 [0..<?n])) [0..<?N]) / real (?N * ?n)"
    unfolding mse_same [OF shR] by (simp add: A split: if_splits)
  then show ?thesis
    unfolding rms_diff_def sums by simp
qed

lemma rms_diff_mse:
  assumes "shape0 P = shape0 X" "shape1 P = shape1 X" and "mse X P = Inr v"
  shows "sqrt v = rms_diff X P"
  using assms(3) unfolding mse_same [OF assms(1,2) [symmetric]] rms_diff_def
  by (simp split: if_splits)

subsection \<open>The weight after training\<close>

lemma one_sym_load:
  assumes "load_state_dict one_sym_model hp best = Inr h1"
    and "best = None \<or> best = Some (state_dict one_sym_model)"
  shows "h1 = hp"
  using assms
  by (auto simp: load_state_dict_def one_sym_model_def state_dict_def parameters_def
      split: option.splits if_splits)

lemma state_inv_batch_loop:
  assumes "\<And>b s s'. update L m b s = Inr s' \<Longrightarrow> Q s \<Longrightarrow> Q s'"
  shows "batch_loop L m tol mx bs s = Inr s' \<Longrightarrow> Q s \<Longrightarrow> Q s'"
proof (induction bs arbitrary: s)
  case Nil
  then show ?case by simp
next
  case (Cons b bs)
  from Cons.prems(1) obtain s1 where u: "update L m b s = Inr s1"
    by (auto split: sum.splits)
  note q1 = assms [OF u Cons.prems(2)]
  show ?case
  proof (cases "stop tol mx s1")
    case True
    with Cons.prems(1) u q1 show ?thesis by simp
  next
    case False
    with Cons.prems(1) u have "batch_loop L m tol mx bs s1 = Inr s'" by simp
    from Cons.IH [OF this q1] show ?thesis .
  qed
qed

lemma state_inv_epoch_loop:
  assumes "\<And>b s s'. update L m b s = Inr s' \<Longrightarrow> Q s \<Longrightarrow> Q s'"
  shows "epoch_loop L m tol mx ld es s = Inr s' \<Longrightarrow> Q s \<Longrightarrow> Q s'"
proof (induction es arbitrary: s)
  case Nil
  then show ?case by simp
next
  case (Cons e es)
  from Cons.prems(1) obtain s1 where u: "batch_loop L m tol mx (ld e) s = Inr s1"
    by (auto split: sum.splits)
  note q1 = state_inv_batch_loop [of L m Q, OF assms u Cons.prems(2)]
  show ?case
  proof (cases "stop tol mx s1")
    case True
    with Cons.prems(1) u q1 show ?thesis by simp
  next
    case False
    with Cons.prems(1) u have "epoch_loop L m tol mx ld es s1 = Inr s'" by simp
    from Cons.IH [OF this q1] show ?thesis .
  qed
qed

lemma one_sym_update_shape:
  assumes u: "update (one_sym_library env nred) one_sym_model b s = Inr s'"
    and adam: "\<forall>p W x. \<exists>p' W'. adam_step env p [W] x = (p', [W']) \<and>
                 shape0 W' = shape0 W \<and> shape1 W' = shape1 W"
    and sh: "shape0 (heap s 0) = k \<and> shape1 (heap s 0) = n"
  shows "shape0 (heap s' 0) = k \<and> shape1 (heap s' 0) = n"
proof -
  from adam obtain p' W' where
    a: "adam_step env (opt s) [heap s 0] b = (p', [W'])"
    and w: "shape0 W' = shape0 (heap s 0)" "shape1 W' = shape1 (heap s 0)"
    by blast
  from u a have "heap s' = (heap s)(0 := W')"
    by (auto simp: update_def one_sym_library_def one_sym_model_def parameters_def
        read_params_def Let_def split: sum.splits)
  with w sh show ?thesis by simp
qed

lemma one_sym_train_shape:
  assumes t: "train_sffn (one_sym_library env nred) one_sym_model (one_sym_heap W) dataset
                max_iters tol batch_size = Inr s"
    and adam: "\<forall>p W x. \<exists>p' W'. adam_step env p [W] x = (p', [W']) \<and>
                 shape0 W' = shape0 W \<and> shape1 W' = shape1 W"
  shows "shape0 (heap s 0) = shape0 W \<and> shape1 (heap s 0) = shape1 W"
proof -
  let ?Q = "\<lambda>s :: (matrix, 'a) train_state.
              shape0 (heap s 0) = shape0 W \<and> shape1 (heap s 0) = shape1 W"
  have "?Q (init_state (one_sym_library env nred) (one_sym_heap W))"
    by (simp add: init_state_def one_sym_heap_def)
  with train_sffn_returns(4) [OF t] show ?thesis
    by (rule state_inv_epoch_loop [where Q = ?Q, rotated 1])
       (rule one_sym_update_shape [OF _ adam])
qed

lemma shape_w_init: "shape0 (w_init R) = shape0 R" "shape1 (w_init R) = shape1 R"
  by (simp_all add: w_init_def map_matrix_def)

text \<open>
  C6. For every swept hidden size, with the decomposition of the shapes that the library
  returns, the entry appended to \<open>PCAErr\<close> is the root-mean-squared difference
  between \<open>X\<close> and its reconstruction \<open>PCArecon\<close> from the first \<open>nred\<close> components,
  and the entry appended to \<open>AEErrs\<close> is the root-mean-squared difference between \<open>X\<close>
  and its reconstruction by the additive autoencoder: \<open>PCArecon\<close> plus the output
  \<open>AEOut\<close> of the layer on the residual \<open>Xrest = X - PCArecon\<close>, where the layer has
  the weight that \<open>train_sffn\<close> on \<open>Xrest\<close> has left in the model and
  \<open>load_state_dict\<close> has not changed (of shape \<open>[nred, n0]\<close> when the random
  initial weight has that shape and the optimizer keeps shapes). The script computes the
  second error as \<open>sqrt(mean((AEOut - Xrest)^2))\<close>.
\<close>

theorem reported_errors_are_rms:
  assumes "sweep_body env X Y U N n0 nred st = Inr st'"
    and "shape0 Y = shape0 X" and "shape0 U = shape1 X"
  shows "\<exists>r s. sweep_iter env X Y U n0 nred = Inr r \<and>
           matmul (take_cols nred Y) (t (take_cols nred U)) = Inr (PCArecon r) \<and>
           broadcast (-) X (PCArecon r) = Inr (Xrest r) \<and>
           train_sffn (one_sym_library env nred) one_sym_model
             (one_sym_heap (w_init (torch_rand env nred n0))) (Xrest r) 5000 (1 / 10 ^ 9) 64
             = Inr s \<and>
           load_state_dict one_sym_model (heap s) (best_state s) = Inr (heap s) \<and>
           forward (heap s 0) (Xrest r) = Inr (AEOut r) \<and>
           PCAErr st' = PCAErr st @ [rms_diff X (PCArecon r)] \<and>
           AEErrs st' = AEErrs st @
             [rms_diff X (additive_reconstruction (PCArecon r) (AEOut r))] \<and>
           (shape0 (torch_rand env nred n0) = nred \<and> shape1 (torch_rand env nred n0) = n0 \<and>
            (\<forall>p W x. \<exists>p' W'. adam_step env p [W] x = (p', [W']) \<and>
                 shape0 W' = shape0 W \<and> shape1 W' = shape1 W) \<longrightarrow>
            shape0 (heap s 0) = nred \<and> shape1 (heap s 0) = n0)"
proof -
  from assms(1) obtain r where r: "sweep_iter env X Y U n0 nred = Inr r"
    and st': "PCAErr st' = PCAErr st @ [pca_rmse r]" "AEErrs st' = AEErrs st @ [final_rmse r]"
    by (auto simp: sweep_body_def Let_def elim!: ebind_InrE)
  let ?W0 = "w_init (torch_rand env nred n0)"
  from r obtain P R s h1 A fm pm where
    P: "matmul (take_cols nred Y) (t (take_cols nred U)) = Inr P" and
    R: "broadcast (-) X P = Inr R" and
    T: "train_sffn (one_sym_library env nred) one_sym_model (one_sym_heap ?W0) R 5000
          (1 / 10 ^ 9) 64 = Inr s" and
    L: "load_state_dict one_sym_model (heap s) (best_state s) = Inr h1" and
    A: "forward (h1 0) R = Inr A" and
    fm: "mse A R = Inr fm" and
    pm: "mse X P = Inr pm" and
    r': "r = \<lparr>PCArecon = P, Xrest = R, AEOut = A, final_mse = fm,
              final_rmse = sqrt fm, pca_rmse = sqrt pm\<rparr>"
    unfolding sweep_iter_def Let_def by (elim ebind_InrE) auto
  have h1: "h1 = heap s"
    by (rule one_sym_load [OF L train_sffn_best_state [OF T]])
  have shP: "shape0 P = shape0 X" "shape1 P = shape1 X"
    using matmul_shape [OF P] assms(2,3) by (simp_all add: take_cols_def)
  have shR: "shape0 R = shape0 X" "shape1 R = shape1 X"
    using R broadcast_same [of X P "(-)"] shP by auto
  have shA: "shape0 A = shape0 X" "shape1 A = shape1 X"
    using forward_shape [OF A] shR by simp_all
  have pca: "sqrt pm = rms_diff X P"
    by (rule rms_diff_mse [OF shP pm])
  have ae: "sqrt fm = rms_diff X (additive_reconstruction P A)"
    by (rule rms_diff_residual [OF shP shA R fm])
  have shape: "shape0 (heap s 0) = nred \<and> shape1 (heap s 0) = n0"
    if "shape0 (torch_rand env nred n0) = nred \<and> shape1 (torch_rand env nred n0) = n0 \<and>
        (\<forall>p W x. \<exists>p' W'. adam_step env p [W] x = (p', [W']) \<and>
                 shape0 W' = shape0 W \<and> shape1 W' = shape1 W)"
    using one_sym_train_shape [OF T] that by (simp add: shape_w_init)
  show ?thesis
    using r P R T L A st' pca ae shape unfolding h1 r'
    by (intro exI [of _ r] exI [of _ s]) (simp add: r')
qed

lemma sweep_body_cases:
  assumes "sweep_body env X Y U N n0 nred st = Inr st'"
  obtains r where "sweep_iter env X Y U n0 nred = Inr r"
    and "PCAErr st' = PCAErr st @ [pca_rmse r]"
    and "AEErrs st' = AEErrs st @ [final_rmse r]"
    and "save_file st' = Some
          [''DataName'' \<mapsto> PStr DataName, ''N'' \<mapsto> PInt (int N), ''n0'' \<mapsto> PInt (int n0),
           ''nred'' \<mapsto> PInt (int nred), ''PCAErr'' \<mapsto> PFloats (PCAErr st'),
           ''AEErrs'' \<mapsto> PFloats (AEErrs st')]"
  using assms by (auto simp: sweep_body_def Let_def elim!: ebind_InrE)

lemma sweep_append:
  "sweep env X Y U N n0 (ns @ ms) st =
   ebind (sweep env X Y U N n0 ns st) (sweep env X Y U N n0 ms)"
proof (induction ns arbitrary: st)
  case Nil
  show ?case by simp
next
  case (Cons n ns)
  show ?case
    by (cases "sweep_body env X Y U N n0 n st") (simp_all add: Cons.IH)
qed

text \<open>A run of the loop that succeeds has succeeded on every prefix of the sweep.\<close>

lemma sweep_prefix:
  assumes "sweep env X Y U N n0 ns st = Inr st'"
  shows "\<exists>st1. sweep env X Y U N n0 (take i ns) st = Inr st1"
proof -
  have "sweep env X Y U N n0 (take i ns @ drop i ns) st = Inr st'"
    using assms by simp
  then show ?thesis
    unfolding sweep_append by (auto elim!: ebind_InrE)
qed

lemma sweep_lists:
  assumes "sweep env X Y U N n0 ns st = Inr st'"
  shows "\<exists>rs. length rs = length ns \<and>
           (\<forall>k<length ns. sweep_iter env X Y U n0 (ns ! k) = Inr (rs ! k)) \<and>
           PCAErr st' = PCAErr st @ map pca_rmse rs \<and>
           AEErrs st' = AEErrs st @ map final_rmse rs"
  using assms
proof (induction ns arbitrary: st)
  case Nil
  then show ?case by simp
next
  case (Cons n ns)
  from Cons.prems obtain st1 where b: "sweep_body env X Y U N n0 n st = Inr st1"
    and rest: "sweep env X Y U N n0 ns st1 = Inr st'"
    by (auto elim!: ebind_InrE)
  from b obtain r where r: "sweep_iter env X Y U n0 n = Inr r"
    and p1: "PCAErr st1 = PCAErr st @ [pca_rmse r]"
    and a1: "AEErrs st1 = AEErrs st @ [final_rmse r]"
    by (rule sweep_body_cases)
  from Cons.IH [OF rest] obtain rs where rs: "length rs = length ns"
    "\<forall>k<length ns. sweep_iter env X Y U n0 (ns ! k) = Inr (rs ! k)"
    "PCAErr st' = PCAErr st1 @ map pca_rmse rs"
    "AEErrs st' = AEErrs st1 @ map final_rmse rs"
    by blast
  have "\<forall>k<length (n # ns). sweep_iter env X Y U n0 ((n # ns) ! k) = Inr ((r # rs) ! k)"
    using r rs(2) by (auto simp: nth_Cons split: nat.splits)
  with rs p1 a1 show ?case
    by (intro exI [of _ "r # rs"]) simp
qed

lemma sweep_last_saved:
  assumes "sweep env X Y U N n0 (ns @ [n]) st = Inr st'"
  shows "save_file st' = Some
          [''DataName'' \<mapsto> PStr DataName, ''N'' \<mapsto> PInt (int N), ''n0'' \<mapsto> PInt (int n0),
           ''nred'' \<mapsto> PInt (int n), ''PCAErr'' \<mapsto> PFloats (PCAErr st'),
           ''AEErrs'' \<mapsto> PFloats (AEErrs st')]"
proof -
  from assms obtain st1 where "sweep_body env X Y U N n0 n st1 = Inr st'"
    unfolding sweep_append by (auto elim!: ebind_InrE)
  then show ?thesis by (rule sweep_body_cases)
qed

lemma HidDims_upt: "HidDims n0 = [1..<nat \<lfloor>0.6 * real n0\<rfloor> + 2]"
  unfolding HidDims_def Let_def by (rule arg_cong) simp

lemma HidDims_nth:
  "length (HidDims n0) = nat \<lfloor>0.6 * real n0\<rfloor> + 1"
  "k < length (HidDims n0) \<Longrightarrow> HidDims n0 ! k = k + 1"
  unfolding HidDims_upt by (simp_all del: upt_Suc)

text \<open>
  C7. After pass \<open>i\<close> of the main loop (counted from 1) the save file holds a dictionary
  with exactly the keys \<open>DataName\<close>, \<open>N\<close>, \<open>n0\<close>, \<open>nred\<close>, \<open>PCAErr\<close> and
  \<open>AEErrs\<close>; \<open>PCAErr\<close> and \<open>AEErrs\<close> are lists of length \<open>i\<close> with the errors of the
  first \<open>i\<close> hidden sizes in the order of the sweep; \<open>nred\<close> is the \<open>i\<close>-th hidden size;
  and the sweep is the list of the integers from 1 to \<open>floor (0.6 * n0) + 1\<close> in
  increasing order.
\<close>

theorem sweep_saves_results:
  assumes "sweep env X Y U N n0 (take i (HidDims n0))
             \<lparr>PCAErr = [], AEErrs = [], save_file = None\<rparr> = Inr st"
    and "1 \<le> i" and "i \<le> length (HidDims n0)"
  shows "\<exists>d rs. save_file st = Some d \<and>
           dom d = {''DataName'', ''N'', ''n0'', ''nred'', ''PCAErr'', ''AEErrs''} \<and>
           d ''DataName'' = Some (PStr DataName) \<and>
           d ''N'' = Some (PInt (int N)) \<and> d ''n0'' = Some (PInt (int n0)) \<and>
           d ''nred'' = Some (PInt (int (HidDims n0 ! (i - 1)))) \<and>
           d ''PCAErr'' = Some (PFloats (map pca_rmse rs)) \<and>
           d ''AEErrs'' = Some (PFloats (map final_rmse rs)) \<and>
           length rs = i \<and>
           (\<forall>k<i. sweep_iter env X Y U n0 (HidDims n0 ! k) = Inr (rs ! k)) \<and>
           length (HidDims n0) = nat \<lfloor>0.6 * real n0\<rfloor> + 1 \<and>
           (\<forall>k<length (HidDims n0). HidDims n0 ! k = k + 1)"
proof -
  let ?ns = "take i (HidDims n0)"
  have len: "length ?ns = i" using assms(3) by simp
  from sweep_lists [OF assms(1)] len obtain rs where rs: "length rs = i"
    "\<forall>k<i. sweep_iter env X Y U n0 (?ns ! k) = Inr (rs ! k)"
    "PCAErr st = map pca_rmse rs" "AEErrs st = map final_rmse rs"
    by auto
  have iters: "\<forall>k<i. sweep_iter env X Y U n0 (HidDims n0 ! k) = Inr (rs ! k)"
    using rs(2) by simp
  have "?ns \<noteq> []" using len assms(2) by auto
  then have split: "?ns = butlast ?ns @ [last ?ns]" by simp
  have "last ?ns = ?ns ! (i - 1)"
    using \<open>?ns \<noteq> []\<close> len by (simp add: last_conv_nth)
  also have "\<dots> = HidDims n0 ! (i - 1)" using assms(2) by simp
  finally have last: "last ?ns = HidDims n0 ! (i - 1)" .
  from assms(1) have "sweep env X Y U N n0 (butlast ?ns @ [last ?ns])
             \<lparr>PCAErr = [], AEErrs = [], save_file = None\<rparr> = Inr st"
    using split by simp
  from sweep_last_saved [OF this]
  have saved: "save_file st = Some
          [''DataName'' \<mapsto> PStr DataName, ''N'' \<mapsto> PInt (int N), ''n0'' \<mapsto> PInt (int n0),
           ''nred'' \<mapsto> PInt (int (HidDims n0 ! (i - 1))), ''PCAErr'' \<mapsto> PFloats (map pca_rmse rs),
           ''AEErrs'' \<mapsto> PFloats (map final_rmse rs)]"
    by (simp add: last rs)
  have hd: "length (HidDims n0) = nat \<lfloor>0.6 * real n0\<rfloor> + 1"
    "\<forall>k<length (HidDims n0). HidDims n0 ! k = k + 1"
    using HidDims_nth(1) [of n0] HidDims_nth(2) [where ?n0.0 = n0] by blast+
  let ?d = "[''DataName'' \<mapsto> PStr DataName, ''N'' \<mapsto> PInt (int N), ''n0'' \<mapsto> PInt (int n0),
           ''nred'' \<mapsto> PInt (int (HidDims n0 ! (i - 1))), ''PCAErr'' \<mapsto> PFloats (map pca_rmse rs),
           ''AEErrs'' \<mapsto> PFloats (map final_rmse rs)]"
  show ?thesis
    by (intro exI [of _ ?d] exI [of _ rs]) (use saved rs(1) iters hd in auto)
qed

subsection \<open>The example sweep\<close>

lemma toy_env_sel:
  "torch_rand toy_env h n = tabulate h n (\<lambda>i j. 3 / 4)"
  "adam_init toy_env = ()"
  "adam_step toy_env p ws b = (p, ws)"
  "shuffles toy_env nred = (\<lambda>epoch p. p)"
  "pca_fit_transform toy_env X = Inr (toy_Y, toy_U)"
  by (simp_all add: toy_env_def)

lemma toy_recon1: "matmul (take_cols 1 toy_Y) (t (take_cols 1 toy_U)) = Inr toy_half"
  by (simp add: matmul_def take_cols_def t_def tabulate_def entry_def upt_rec toy_Y_def
      toy_U_def toy_half_def)

lemma toy_recon2: "matmul (take_cols 2 toy_Y) (t (take_cols 2 toy_U)) = Inr toy_X"
  by (simp add: matmul_def take_cols_def t_def tabulate_def entry_def upt_rec toy_Y_def
      toy_U_def toy_X_def)

lemma toy_rest:
  "broadcast (-) toy_X toy_half = Inr toy_half"
  "broadcast (-) toy_X toy_X = Inr toy_zero"
  by (simp_all add: broadcast_def bdim_def bidx_def tabulate_def entry_def upt_rec toy_X_def
      toy_half_def toy_zero_def)

lemma toy_w_init:
  "w_init (torch_rand toy_env 1 2) = toy_W1"
  "w_init (torch_rand toy_env 2 2) = toy_W2"
  by (simp_all add: w_init_def toy_env_sel tabulate_def map_matrix_def upt_rec toy_W2_def
      toy_W1_def)

lemma sigmoid_minus: "sigmoid (- v) = 1 - sigmoid v"
proof -
  define e where "e = exp v"
  have e: "0 < e" by (simp add: e_def)
  then have "1 + e \<noteq> 0" by simp
  with e have "1 / (1 + e) = 1 - 1 / (1 + inverse e)"
    by (simp add: field_simps)
  then show ?thesis
    by (simp add: sigmoid_def exp_minus e_def)
qed

lemma sigmoid_bounds: "0 < v \<Longrightarrow> 1 / 2 < sigmoid v" "sigmoid v < 1"
proof -
  have pos: "0 < 1 + exp (- v)" by (simp add: add_pos_pos)
  show "sigmoid v < 1"
    unfolding sigmoid_def using pos by (simp add: pos_divide_less_eq)
  assume "0 < v"
  then have "exp (- v) < 1" by simp
  then show "1 / 2 < sigmoid v"
    unfolding sigmoid_def using pos by (simp add: pos_less_divide_eq)
qed

lemma toy_c_bounds: "0 < toy_c" "toy_c < 1 / 20"
  using sigmoid_bounds(1) [of "1 / 10"] sigmoid_bounds(2) [of "1 / 10"]
  by (simp_all add: toy_c_def)

lemma toy_forward:
  "forward toy_W1 toy_half = Inr toy_out"
  "forward toy_W2 toy_zero = Inr toy_zero"
proof -
  have "1 - 2 * sigmoid (1 / 10) = - (20 * toy_c)" "2 * sigmoid (1 / 10) - 1 = 20 * toy_c"
    by (simp_all add: toy_c_def field_simps)
  then show "forward toy_W1 toy_half = Inr toy_out"
    by (simp add: forward_def matmul_def t_def tabulate_def entry_def map_matrix_def
      sigmoid_minus upt_rec toy_half_def toy_W1_def toy_out_def)
  show "forward toy_W2 toy_zero = Inr toy_zero"
    by (simp add: forward_def matmul_def t_def tabulate_def entry_def map_matrix_def
      upt_rec toy_zero_def toy_W2_def sigmoid_def)
qed

lemma toy_mse:
  "mse toy_out toy_half = Inr ((1 / 2 - toy_c)\<^sup>2)"
  "mse toy_X toy_half = Inr (1 / 4)"
  "mse toy_zero toy_zero = Inr 0"
  "mse toy_X toy_X = Inr 0"
proof -
  have "(- toy_c + 1 / 2)\<^sup>2 = (1 / 2 - toy_c)\<^sup>2" "(toy_c - 1 / 2)\<^sup>2 = (1 / 2 - toy_c)\<^sup>2"
    by (simp_all add: power2_eq_square algebra_simps)
  then show "mse toy_out toy_half = Inr ((1 / 2 - toy_c)\<^sup>2)"
    by (simp add: mse_def broadcast_def bdim_def bidx_def tabulate_def entry_def
      map_matrix_def mean_all_def upt_rec toy_half_def toy_out_def)
  show "mse toy_X toy_half = Inr (1 / 4)" "mse toy_zero toy_zero = Inr 0"
    "mse toy_X toy_X = Inr 0"
    by (simp_all add: mse_def broadcast_def bdim_def bidx_def tabulate_def entry_def
      map_matrix_def mean_all_def upt_rec toy_X_def toy_half_def toy_zero_def power2_eq_square)
qed

lemma toy_loss:
  "\<not> (1 / 2 - toy_c)\<^sup>2 < 1 / 10 ^ 9" "sqrt ((1 / 2 - toy_c)\<^sup>2) = 1 / 2 - toy_c"
proof -
  from toy_c_bounds(2) have lo: "9 / 20 < 1 / 2 - toy_c" by simp
  then have "(9 / 20)\<^sup>2 < (1 / 2 - toy_c)\<^sup>2"
    by (intro power_strict_mono) simp_all
  moreover have "(1::real) / 10 ^ 9 < (9 / 20)\<^sup>2" by (simp add: power2_eq_square)
  ultimately show "\<not> (1 / 2 - toy_c)\<^sup>2 < 1 / 10 ^ 9" by simp
  from lo show "sqrt ((1 / 2 - toy_c)\<^sup>2) = 1 / 2 - toy_c" by simp
qed

lemma toy_loader:
  "data_loader toy_half (nat 64) (\<lambda>epoch p. p) e = [toy_half]"
  "data_loader toy_zero (nat 64) (\<lambda>epoch p. p) e = [toy_zero]"
  by (simp_all add: data_loader_def num_batches_def upt_rec toy_half_def toy_zero_def)

lemma one_sym_library_sel:
  "optimizer_init (one_sym_library env nred) = adam_init env"
  "optimizer_step (one_sym_library env nred) = adam_step env"
  "shuffle (one_sym_library env nred) = shuffles env nred"
  "model_loss (one_sym_library env nred) [W] b =
     ebind (forward W b) (\<lambda>out. case mse out b of
                                   Inr loss \<Rightarrow> Inr (Fin loss)
                                 | Inl NotANumber \<Rightarrow> Inr NaN
                                 | Inl e \<Rightarrow> Inl e)"
  by (simp_all add: one_sym_library_def)

lemma one_sym_heap_0: "one_sym_heap W 0 = W"
  by (simp add: one_sym_heap_def)

lemma toy_update:
  assumes "forward W b = Inr out" and "mse out b = Inr v" and "heap s 0 = W"
  shows "update (one_sym_library toy_env nred) one_sym_model b s =
     Inr (s\<lparr>heap := (heap s)(0 := heap s 0),
            best_loss := (if flt (Fin v) (best_loss s) then Fin v else best_loss s),
            best_state := (if flt (Fin v) (best_loss s) then Some [(''W'', 0)] else best_state s),
            loss_values := loss_values s @ [Fin v], num_iter := num_iter s + 1\<rparr>)"
  using assms
  by (cases s)
     (simp add: update_def one_sym_library_sel one_sym_model_def parameters_def read_params_def
        state_dict_def toy_env_sel)

lemma toy_steady:
  assumes fw: "forward W b = Inr out" and ms: "mse out b = Inr v"
    and big: "\<not> v < 1 / 10 ^ 9"
    and ld: "\<And>e. data_loader b (nat 64) (\<lambda>epoch p. p) e = [b]"
    and ne: "shape0 b \<noteq> 0"
  shows "train_sffn (one_sym_library toy_env nred) one_sym_model (one_sym_heap W)
     b 5000 (1 / 10 ^ 9) 64 =
   Inr \<lparr>heap = one_sym_heap W, opt = (), best_loss = Fin v,
        best_state = Some [(''W'', 0)], loss_values = replicate 5000 (Fin v),
        num_iter = 5000\<rparr>"
proof -
  let ?L = "one_sym_library toy_env nred"
  let ?h = "one_sym_heap W"
  let ?s1 = "\<lparr>heap = ?h, opt = (), best_loss = Fin v, best_state = Some [(''W'', 0)],
              loss_values = [Fin v], num_iter = 1\<rparr>"
  let ?Q = "\<lambda>s :: (matrix, unit) train_state. heap s = ?h \<and> best_loss s = Fin v"
  have "heap (init_state ?L ?h) 0 = W"
    by (simp add: init_state_def one_sym_heap_0)
  from toy_update [OF fw ms this]
  have first: "update ?L one_sym_model b (init_state ?L ?h) = Inr ?s1"
    by (simp add: init_state_def one_sym_library_sel toy_env_sel)
  have step: "update ?L one_sym_model b s =
      Inr (s\<lparr>loss_values := loss_values s @ [Fin v], num_iter := num_iter s + 1\<rparr>)"
    if "?Q s" for s
  proof -
    from that have "heap s 0 = W" by (simp add: one_sym_heap_0)
    from toy_update [OF fw ms this] that show ?thesis
      by (cases s) simp
  qed
  have rest: "epoch_loop ?L one_sym_model (1 / 10 ^ 9) 5000
          (data_loader b (nat 64) (\<lambda>epoch p. p)) [Suc 0..<10000] ?s1 =
        Inr (?s1\<lparr>loss_values := loss_values ?s1 @
                    replicate (min (length [Suc 0..<10000]) (nat (5000 - num_iter ?s1)))
                      (Fin v),
                  num_iter := num_iter ?s1 +
                    int (min (length [Suc 0..<10000]) (nat (5000 - num_iter ?s1)))\<rparr>)"
    by (rule steady_epochs [where Q = ?Q, OF step _ _ ld]) (use big in simp_all)
  have ns: "\<not> stop (1 / 10 ^ 9) 5000 ?s1" using big by (simp add: stop_def)
  have start: "train_sffn ?L one_sym_model ?h b 5000 (1 / 10 ^ 9) 64 =
      epoch_loop ?L one_sym_model (1 / 10 ^ 9) 5000
        (data_loader b (nat 64) (\<lambda>epoch p. p)) (0 # [Suc 0..<10000])
        (init_state ?L ?h)"
    unfolding train_sffn_def epochs_unfold one_sym_library_sel toy_env_sel
    using ne by (simp add: one_sym_model_def parameters_def)
  have "Fin v # replicate 4999 (Fin v) = replicate (Suc 4999) (Fin v)"
    by (simp only: replicate_Suc)
  also have "\<dots> = replicate 5000 (Fin v)"
    by (rule arg_cong [where f = "\<lambda>n. replicate n (Fin v)"]) simp
  finally have rep: "Fin v # replicate 4999 (Fin v) = replicate 5000 (Fin v)" .
  show ?thesis
    using ns rest
    unfolding start epoch_loop.simps ld batch_loop.simps first
    by (simp add: rep)
qed

lemma toy_train1:
  "train_sffn (one_sym_library toy_env 1) one_sym_model (one_sym_heap toy_W1)
     toy_half 5000 (1 / 10 ^ 9) 64 =
   Inr \<lparr>heap = one_sym_heap toy_W1, opt = (), best_loss = Fin ((1 / 2 - toy_c)\<^sup>2),
        best_state = Some [(''W'', 0)],
        loss_values = replicate 5000 (Fin ((1 / 2 - toy_c)\<^sup>2)), num_iter = 5000\<rparr>"
  by (rule toy_steady [OF toy_forward(1) toy_mse(1) toy_loss(1) toy_loader(1)])
     (simp add: toy_half_def)

lemma toy_train2:
  "train_sffn (one_sym_library toy_env 2) one_sym_model (one_sym_heap toy_W2)
     toy_zero 5000 (1 / 10 ^ 9) 64 =
   Inr \<lparr>heap = one_sym_heap toy_W2, opt = (), best_loss = Fin 0,
        best_state = Some [(''W'', 0)], loss_values = [Fin 0], num_iter = 1\<rparr>"
proof -
  let ?L = "one_sym_library toy_env 2"
  let ?h = "one_sym_heap toy_W2"
  let ?s1 = "\<lparr>heap = ?h, opt = (), best_loss = Fin 0, best_state = Some [(''W'', 0)],
              loss_values = [Fin 0], num_iter = 1\<rparr>"
  have "heap (init_state ?L ?h) 0 = toy_W2"
    by (simp add: init_state_def one_sym_heap_0)
  from toy_update [OF toy_forward(2) toy_mse(3) this]
  have first: "update ?L one_sym_model toy_zero (init_state ?L ?h) = Inr ?s1"
    by (simp add: init_state_def one_sym_library_sel toy_env_sel)
  have st: "stop (1 / 10 ^ 9) 5000 ?s1" by (simp add: stop_def)
  have start: "train_sffn ?L one_sym_model ?h toy_zero 5000 (1 / 10 ^ 9) 64 =
      epoch_loop ?L one_sym_model (1 / 10 ^ 9) 5000
        (data_loader toy_zero (nat 64) (\<lambda>epoch p. p)) (0 # [Suc 0..<10000])
        (init_state ?L ?h)"
    unfolding train_sffn_def epochs_unfold one_sym_library_sel toy_env_sel
    by (simp add: toy_zero_def one_sym_model_def parameters_def)
  show ?thesis
    using st
    unfolding start epoch_loop.simps toy_loader batch_loop.simps first
    by simp
qed

lemma toy_load:
  "load_state_dict one_sym_model (one_sym_heap W) (Some [(''W'', 0)]) = Inr (one_sym_heap W)"
  by (simp add: load_state_dict_def one_sym_model_def one_sym_heap_def parameters_def)

lemma sqrt_quarter: "sqrt (1 / 4) = 1 / 2"
  by (simp add: real_sqrt_divide)

lemma toy_iter1:
  "sweep_iter toy_env toy_X toy_Y toy_U 2 1 =
   Inr \<lparr>PCArecon = toy_half, Xrest = toy_half, AEOut = toy_out,
        final_mse = (1 / 2 - toy_c)\<^sup>2, final_rmse = 1 / 2 - toy_c, pca_rmse = 1 / 2\<rparr>"
  unfolding sweep_iter_def Let_def toy_recon1 ebind_simps toy_rest toy_w_init one_sym_heap_0
    toy_forward toy_mse toy_train1 train_state.select_convs toy_load sqrt_quarter toy_loss(2) ..

lemma toy_iter2:
  "sweep_iter toy_env toy_X toy_Y toy_U 2 2 =
   Inr \<lparr>PCArecon = toy_X, Xrest = toy_zero, AEOut = toy_zero, final_mse = 0,
        final_rmse = 0, pca_rmse = 0\<rparr>"
  unfolding sweep_iter_def Let_def toy_recon2 ebind_simps toy_rest toy_w_init one_sym_heap_0
    toy_forward toy_mse toy_train2 train_state.select_convs toy_load real_sqrt_zero ..

lemma HidDims_2: "HidDims 2 = [1, 2]"
  by (simp add: HidDims_def upt_rec)

lemma toy_body1:
  "sweep_body toy_env toy_X toy_Y toy_U 2 2 1 \<lparr>PCAErr = [], AEErrs = [], save_file = None\<rparr> =
   Inr \<lparr>PCAErr = [1 / 2], AEErrs = [1 / 2 - toy_c],
        save_file = Some [''DataName'' \<mapsto> PStr ''Wine'', ''N'' \<mapsto> PInt 2, ''n0'' \<mapsto> PInt 2,
          ''nred'' \<mapsto> PInt 1, ''PCAErr'' \<mapsto> PFloats [1 / 2], ''AEErrs'' \<mapsto> PFloats [1 / 2 - toy_c]]\<rparr>"
  unfolding sweep_body_def toy_iter1 ebind_simps Let_def
  by (simp add: DataName_def)

lemma toy_body2:
  "sweep_body toy_env toy_X toy_Y toy_U 2 2 2
     \<lparr>PCAErr = [1 / 2], AEErrs = [1 / 2 - toy_c], save_file = f\<rparr> =
   Inr \<lparr>PCAErr = [1 / 2, 0], AEErrs = [1 / 2 - toy_c, 0],
        save_file = Some [''DataName'' \<mapsto> PStr ''Wine'', ''N'' \<mapsto> PInt 2, ''n0'' \<mapsto> PInt 2,
          ''nred'' \<mapsto> PInt 2, ''PCAErr'' \<mapsto> PFloats [1 / 2, 0],
          ''AEErrs'' \<mapsto> PFloats [1 / 2 - toy_c, 0]]\<rparr>"
  unfolding sweep_body_def toy_iter2 ebind_simps Let_def
  by (simp add: DataName_def)

lemma toy_sweep:
  "sweep toy_env toy_X toy_Y toy_U 2 2 (take 2 (HidDims 2))
     \<lparr>PCAErr = [], AEErrs = [], save_file = None\<rparr> =
   Inr \<lparr>PCAErr = [1 / 2, 0], AEErrs = [1 / 2 - toy_c, 0],
        save_file = Some [''DataName'' \<mapsto> PStr ''Wine'', ''N'' \<mapsto> PInt 2, ''n0'' \<mapsto> PInt 2,
          ''nred'' \<mapsto> PInt 2, ''PCAErr'' \<mapsto> PFloats [1 / 2, 0],
          ''AEErrs'' \<mapsto> PFloats [1 / 2 - toy_c, 0]]\<rparr>"
proof -
  have tk: "take 2 (HidDims 2) = [1, 2]" by (simp add: HidDims_2)
  show ?thesis
    unfolding tk sweep.simps toy_body1 ebind_simps toy_body2 ..
qed

lemma toy_prescale: "prescale (Matrix 2 2 [[0, 10], [1, 30]]) = Inr toy_X"
  unfolding prescale_example toy_X_def ..

text \<open>
  The example: the data \<open>[[0, 10], [1, 30]]\<close> has two features and is prescaled to
  \<open>toy_X\<close>, the sweep is \<open>[1, 2]\<close>, and after the second pass both lists have two
  entries: the errors 1/2 and \<open>1/2 - toy_c\<close> of the first hidden size, the errors 0 of
  the second.
\<close>

theorem sweep_saves_results_witness:
  "sweep toy_env toy_X toy_Y toy_U 2 2 (take 2 (HidDims 2))
     \<lparr>PCAErr = [], AEErrs = [], save_file = None\<rparr> =
   Inr \<lparr>PCAErr = [1 / 2, 0], AEErrs = [1 / 2 - toy_c, 0],
        save_file = Some [''DataName'' \<mapsto> PStr ''Wine'', ''N'' \<mapsto> PInt 2, ''n0'' \<mapsto> PInt 2,
          ''nred'' \<mapsto> PInt 2, ''PCAErr'' \<mapsto> PFloats [1 / 2, 0],
          ''AEErrs'' \<mapsto> PFloats [1 / 2 - toy_c, 0]]\<rparr> \<and>
   (1::nat) \<le> 2 \<and> 2 \<le> length (HidDims 2) \<and> HidDims 2 = [1, 2] \<and>
   script toy_env (Matrix 2 2 [[0, 10], [1, 30]]) =
   Inr \<lparr>PCAErr = [1 / 2, 0], AEErrs = [1 / 2 - toy_c, 0],
        save_file = Some [''DataName'' \<mapsto> PStr ''Wine'', ''N'' \<mapsto> PInt 2, ''n0'' \<mapsto> PInt 2,
          ''nred'' \<mapsto> PInt 2, ''PCAErr'' \<mapsto> PFloats [1 / 2, 0],
          ''AEErrs'' \<mapsto> PFloats [1 / 2 - toy_c, 0]]\<rparr> \<and>
   dom [''DataName'' \<mapsto> PStr ''Wine'', ''N'' \<mapsto> PInt 2, ''n0'' \<mapsto> PInt 2,
          ''nred'' \<mapsto> PInt 2, ''PCAErr'' \<mapsto> PFloats [1 / 2, 0],
          ''AEErrs'' \<mapsto> PFloats [1 / 2 - toy_c, 0]] =
     {''DataName'', ''N'', ''n0'', ''nred'', ''PCAErr'', ''AEErrs''}"
proof -
  have len: "2 \<le> length (HidDims 2)" by (simp add: HidDims_2)
  have run: "script toy_env (Matrix 2 2 [[0, 10], [1, 30]]) =
      sweep toy_env toy_X toy_Y toy_U 2 2 (take 2 (HidDims 2))
       \<lparr>PCAErr = [], AEErrs = [], save_file = None\<rparr>"
    by (simp add: script_def toy_prescale toy_env_sel HidDims_2)
  have d: "dom [''DataName'' \<mapsto> PStr ''Wine'', ''N'' \<mapsto> PInt 2, ''n0'' \<mapsto> PInt 2,
          ''nred'' \<mapsto> PInt 2, ''PCAErr'' \<mapsto> PFloats [1 / 2, 0],
          ''AEErrs'' \<mapsto> PFloats [1 / 2 - toy_c, 0]] =
     {''DataName'', ''N'', ''n0'', ''nred'', ''PCAErr'', ''AEErrs''}"
    using sweep_saves_results [OF toy_sweep _ len] by auto
  show ?thesis
    unfolding run toy_sweep d by (simp add: HidDims_2)
qed

text \<open>
  The first pass of the example sweep. The residual has the entries 1/2 and -1/2 and the
  layer, whose weight is \<open>toy_W1\<close> after the 5000 updates of the training, maps it to
  the entries \<open>toy_c\<close> and \<open>- toy_c\<close>, with \<open>0 < toy_c < 1/20\<close>. The squared
  differences to the reconstruction from the first component have the mean 1/4 and the sum
  1: the reported error is 1/2. Those to the additive reconstruction have the mean
  \<open>(1/2 - toy_c)\<^sup>2\<close>: the reported error is \<open>1/2 - toy_c\<close>.
\<close>

theorem reported_errors_are_rms_witness:
  "sweep_body toy_env toy_X toy_Y toy_U 2 2 1 \<lparr>PCAErr = [], AEErrs = [], save_file = None\<rparr> =
   Inr \<lparr>PCAErr = [1 / 2], AEErrs = [1 / 2 - toy_c],
        save_file = Some [''DataName'' \<mapsto> PStr ''Wine'', ''N'' \<mapsto> PInt 2, ''n0'' \<mapsto> PInt 2,
          ''nred'' \<mapsto> PInt 1, ''PCAErr'' \<mapsto> PFloats [1 / 2],
          ''AEErrs'' \<mapsto> PFloats [1 / 2 - toy_c]]\<rparr> \<and>
   shape0 toy_Y = shape0 toy_X \<and> shape0 toy_U = shape1 toy_X \<and>
   train_sffn (one_sym_library toy_env 1) one_sym_model (one_sym_heap toy_W1)
     toy_half 5000 (1 / 10 ^ 9) 64 =
   Inr \<lparr>heap = one_sym_heap toy_W1, opt = (), best_loss = Fin ((1 / 2 - toy_c)\<^sup>2),
        best_state = Some [(''W'', 0)],
        loss_values = replicate 5000 (Fin ((1 / 2 - toy_c)\<^sup>2)), num_iter = 5000\<rparr> \<and>
   forward toy_W1 toy_half = Inr toy_out \<and>
   rms_diff toy_X toy_half = 1 / 2 \<and>
   rms_diff toy_X (additive_reconstruction toy_half toy_out) = 1 / 2 - toy_c \<and>
   0 < toy_c \<and> toy_c < 1 / 20 \<and>
   shape0 (torch_rand toy_env 1 2) = 1 \<and> shape1 (torch_rand toy_env 1 2) = 2 \<and>
   (\<forall>p W x. \<exists>p' W'. adam_step toy_env p [W] x = (p', [W']) \<and>
        shape0 W' = shape0 W \<and> shape1 W' = shape1 W) \<and>
   shape0 toy_W1 = 1 \<and> shape1 toy_W1 = 2"
proof -
  have sh: "shape0 toy_Y = shape0 toy_X" "shape0 toy_U = shape1 toy_X"
    by (simp_all add: toy_X_def toy_Y_def toy_U_def)
  have lib: "shape0 (torch_rand toy_env 1 2) = 1" "shape1 (torch_rand toy_env 1 2) = 2"
    "\<forall>p W x. \<exists>p' W'. adam_step toy_env p [W] x = (p', [W']) \<and>
        shape0 W' = shape0 W \<and> shape1 W' = shape1 W"
    by (simp_all add: toy_env_sel)
  from reported_errors_are_rms [OF toy_body1 sh] obtain r s where
    all: "sweep_iter toy_env toy_X toy_Y toy_U 2 1 = Inr r \<and>
      matmul (take_cols 1 toy_Y) (t (take_cols 1 toy_U)) = Inr (PCArecon r) \<and>
      broadcast (-) toy_X (PCArecon r) = Inr (Xrest r) \<and>
      train_sffn (one_sym_library toy_env 1) one_sym_model
        (one_sym_heap (w_init (torch_rand toy_env 1 2))) (Xrest r) 5000 (1 / 10 ^ 9) 64 = Inr s \<and>
      load_state_dict one_sym_model (heap s) (best_state s) = Inr (heap s) \<and>
      forward (heap s 0) (Xrest r) = Inr (AEOut r) \<and>
      PCAErr \<lparr>PCAErr = [1 / 2], AEErrs = [1 / 2 - toy_c],
        save_file = Some [''DataName'' \<mapsto> PStr ''Wine'', ''N'' \<mapsto> PInt 2, ''n0'' \<mapsto> PInt 2,
          ''nred'' \<mapsto> PInt 1, ''PCAErr'' \<mapsto> PFloats [1 / 2],
          ''AEErrs'' \<mapsto> PFloats [1 / 2 - toy_c]]\<rparr> =
        PCAErr \<lparr>PCAErr = [], AEErrs = [], save_file = None\<rparr> @ [rms_diff toy_X (PCArecon r)] \<and>
      AEErrs \<lparr>PCAErr = [1 / 2], AEErrs = [1 / 2 - toy_c],
        save_file = Some [''DataName'' \<mapsto> PStr ''Wine'', ''N'' \<mapsto> PInt 2, ''n0'' \<mapsto> PInt 2,
          ''nred'' \<mapsto> PInt 1, ''PCAErr'' \<mapsto> PFloats [1 / 2],
          ''AEErrs'' \<mapsto> PFloats [1 / 2 - toy_c]]\<rparr> =
        AEErrs \<lparr>PCAErr = [], AEErrs = [], save_file = None\<rparr> @
          [rms_diff toy_X (additive_reconstruction (PCArecon r) (AEOut r))] \<and>
      (shape0 (torch_rand toy_env 1 2) = 1 \<and> shape1 (torch_rand toy_env 1 2) = 2 \<and>
       (\<forall>p W x. \<exists>p' W'. adam_step toy_env p [W] x = (p', [W']) \<and>
            shape0 W' = shape0 W \<and> shape1 W' = shape1 W) \<longrightarrow>
       shape0 (heap s 0) = 1 \<and> shape1 (heap s 0) = 2)"
    by (elim exE) (rule that)
  from all have r: "sweep_iter toy_env toy_X toy_Y toy_U 2 1 = Inr r" by (elim conjE)
  from all have t: "train_sffn (one_sym_library toy_env 1) one_sym_model
        (one_sym_heap (w_init (torch_rand toy_env 1 2))) (Xrest r) 5000 (1 / 10 ^ 9) 64 = Inr s"
    by (elim conjE)
  from all have f: "forward (heap s 0) (Xrest r) = Inr (AEOut r)" by (elim conjE)
  from all have p: "rms_diff toy_X (PCArecon r) = 1 / 2" by (elim conjE) simp
  from all have a:
    "rms_diff toy_X (additive_reconstruction (PCArecon r) (AEOut r)) = 1 / 2 - toy_c"
    by (elim conjE) simp
  from all have w: "shape0 (torch_rand toy_env 1 2) = 1 \<and> shape1 (torch_rand toy_env 1 2) = 2 \<and>
       (\<forall>p W x. \<exists>p' W'. adam_step toy_env p [W] x = (p', [W']) \<and>
            shape0 W' = shape0 W \<and> shape1 W' = shape1 W) \<longrightarrow>
       shape0 (heap s 0) = 1 \<and> shape1 (heap s 0) = 2" by (elim conjE)
  from r have r': "PCArecon r = toy_half" "Xrest r = toy_half" "AEOut r = toy_out"
    unfolding toy_iter1 by auto
  from t have s: "s = \<lparr>heap = one_sym_heap toy_W1, opt = (),
        best_loss = Fin ((1 / 2 - toy_c)\<^sup>2), best_state = Some [(''W'', 0)],
        loss_values = replicate 5000 (Fin ((1 / 2 - toy_c)\<^sup>2)), num_iter = 5000\<rparr>"
    unfolding r' toy_w_init toy_train1 by simp
  from w lib have "shape0 (heap s 0) = 1 \<and> shape1 (heap s 0) = 2" by blast
  then have shW: "shape0 toy_W1 = 1" "shape1 toy_W1 = 2"
    by (simp_all add: s one_sym_heap_0)
  from f have fw: "forward toy_W1 toy_half = Inr toy_out"
    by (simp add: s r' one_sym_heap_0)
  from p a have rms: "rms_diff toy_X toy_half = 1 / 2"
    "rms_diff toy_X (additive_reconstruction toy_half toy_out) = 1 / 2 - toy_c"
    by (simp_all add: r')
  show ?thesis
    by (intro conjI toy_body1 sh toy_train1 fw lib shW rms toy_c_bounds)
qed


end
